theory Spec2Isabelle
  imports Complex_Main "HOL-Library.Multiset"
begin

section \<open>Values, arrays and the object store\<close>

text \<open>
  The kernels of \<^verbatim>\<open>src/methods\<close> work on numpy arrays: a two-dimensional field of
  floating-point numbers and a three-dimensional image with three channels per cell.
  A field is a list of rows; its cells are doubles (the array numpy builds from Python
  floats), each kept as the real number it denotes. A product of two of them is rounded to
  the nearest double by \<^verbatim>\<open>fl\<close> below; NaN, the infinities and overflow are not modelled.
  An image is a list of rows of cells, a cell being the triple of its three channels, and
  carries the element type numpy gives it. Two-dimensional shapes are read off the lists, so
  an array without rows has no columns either.
\<close>

datatype error =
  AttributeError | IndexError | ValueError | OverflowError | NameError | TypeError
  | ZeroDivisionError | ImportError | DiscoveryError

datatype dtype = Float64 | UInt8 | Int32 | IntDefault | UInt64 | BeyondInt64

type_synonym cell = "int \<times> int \<times> int"

datatype ndarray = Field "real list list" | Image dtype "cell list list"

text \<open>
  The rounding of an arithmetic result to a double (IEEE 754 binary64, to nearest, ties to
  even). \<^verbatim>\<open>exponent x\<close> is the \<^verbatim>\<open>e\<close> with \<^verbatim>\<open>2^e \<le> |x| < 2^(e+1)\<close>, read off the number
  of bits of the integer part of \<^verbatim>\<open>|x|\<close> or of \<^verbatim>\<open>1/|x|\<close>; a double has 53 significant bits,
  so the doubles around \<^verbatim>\<open>x\<close> are the multiples of \<^verbatim>\<open>2^(e-52)\<close>, and of \<^verbatim>\<open>2^(-1074)\<close> in
  the subnormal range.
\<close>

fun bitlength :: "nat \<Rightarrow> nat" where
  "bitlength n = (if n = 0 then 0 else Suc (bitlength (n div 2)))"

declare bitlength.simps [simp del]

definition pow2 :: "int \<Rightarrow> real" where
  "pow2 k = (if 0 \<le> k then 2 ^ nat k else 1 / 2 ^ nat (- k))"

definition exponent :: "real \<Rightarrow> int" where
  "exponent x =
     (if 1 \<le> \<bar>x\<bar> then int (bitlength (nat \<lfloor>\<bar>x\<bar>\<rfloor>)) - 1
      else (let k = int (bitlength (nat \<lfloor>1 / \<bar>x\<bar>\<rfloor>)) - 1
            in if \<bar>x\<bar> * pow2 k = 1 then - k else - k - 1))"

definition round_half_even :: "real \<Rightarrow> int" where
  "round_half_even q =
     (let n = \<lfloor>q\<rfloor>; r = q - of_int n
      in if r < 1 / 2 then n else if 1 / 2 < r then n + 1 else if even n then n else n + 1)"

definition fl :: "real \<Rightarrow> real" where
  "fl x = (if x = 0 then 0
           else (let u = pow2 (max (exponent x) (- 1022) - 52)
                 in of_int (round_half_even (x / u)) * u))"

text \<open>The double that the literal \<^verbatim>\<open>0.6\<close> denotes.\<close>

definition double_0_6 :: real where
  "double_0_6 = 5404319552844595 / 9007199254740992"

text \<open>Python's \<^verbatim>\<open>int(x)\<close> and C's conversion of a float to an integer: towards zero.\<close>

definition trunc :: "real \<Rightarrow> int" where
  "trunc q = (if q < 0 then - \<lfloor>- q\<rfloor> else \<lfloor>q\<rfloor>)"

text \<open>
  Storing an integer into an array of a given element type keeps the low bits. (For a
  float outside the range of the target type C leaves the conversion undefined; the usual
  behaviour, truncation followed by wrap-around, is what is written here.)
\<close>

fun wrap :: "dtype \<Rightarrow> int \<Rightarrow> int" where
  "wrap UInt8 i = i mod 256"
| "wrap UInt64 i = i mod 2 ^ 64"
| "wrap Int32 i = (i + 2 ^ 31) mod 2 ^ 32 - 2 ^ 31"
| "wrap IntDefault i = (i + 2 ^ 63) mod 2 ^ 64 - 2 ^ 63"
| "wrap Float64 i = i"
| "wrap BeyondInt64 i = i"

definition cast :: "dtype \<Rightarrow> real \<Rightarrow> int" where
  "cast dt q = wrap dt (trunc q)"

definition fits_int32 :: "int \<Rightarrow> bool" where
  "fits_int32 i = (- (2 ^ 31) \<le> i \<and> i < 2 ^ 31)"

definition fits_int64 :: "int \<Rightarrow> bool" where
  "fits_int64 i = (- (2 ^ 63) \<le> i \<and> i < 2 ^ 63)"

definition nrows :: "'a list list \<Rightarrow> nat" where
  "nrows a = length a"

definition ncols :: "'a list list \<Rightarrow> nat" where
  "ncols a = (case a of [] \<Rightarrow> 0 | r # _ \<Rightarrow> length r)"

text \<open>A numpy array is rectangular: every row has the length of the first.\<close>

definition rect :: "nat \<Rightarrow> nat \<Rightarrow> 'a list list \<Rightarrow> bool" where
  "rect r c a = (length a = r \<and> (\<forall>row \<in> set a. length row = c))"

text \<open>
  The lines \<^verbatim>\<open>display_results\<close> prints, kept as structured values: the layout of the
  f-strings and the decimal rendering of the floats are not modelled.
\<close>

datatype line =
  Separator
  | Started nat nat nat
  | ResultLine string real real
  | TotalRuntime real
  | ProfilerStats

text \<open>
  Arrays are objects: a name holds a reference, and two names may hold the same one. The
  store is the list of all objects allocated so far, an address being an index into it.
\<close>

record state =
  heap :: "ndarray list"
  stdout :: "line list"

definition fetch :: "state \<Rightarrow> nat \<Rightarrow> ndarray option" where
  "fetch s a = (if a < length (heap s) then Some (heap s ! a) else None)"

definition put :: "nat \<Rightarrow> ndarray \<Rightarrow> state \<Rightarrow> state" where
  "put a v s = s\<lparr>heap := (heap s)[a := v]\<rparr>"

definition alloc :: "ndarray \<Rightarrow> state \<Rightarrow> nat \<times> state" where
  "alloc v s = (length (heap s), s\<lparr>heap := heap s @ [v]\<rparr>)"

text \<open>\<^verbatim>\<open>a.copy()\<close>: a new object with the same contents.\<close>

definition copy :: "nat \<Rightarrow> state \<Rightarrow> (error + nat) \<times> state" where
  "copy a s = (case fetch s a of
       None \<Rightarrow> (Inl AttributeError, s)
     | Some v \<Rightarrow> (let (a', s') = alloc v s in (Inr a', s')))"

text \<open>
  The kernels document their first argument as the two-dimensional field and their second
  as the three-dimensional image; an argument of another kind is reported as a TypeError.
\<close>

definition field_of :: "state \<Rightarrow> nat \<Rightarrow> error + real list list" where
  "field_of s a = (case fetch s a of Some (Field f) \<Rightarrow> Inr f | _ \<Rightarrow> Inl TypeError)"

definition image_of :: "state \<Rightarrow> nat \<Rightarrow> error + dtype \<times> cell list list" where
  "image_of s a = (case fetch s a of Some (Image dt b) \<Rightarrow> Inr (dt, b) | _ \<Rightarrow> Inl TypeError)"

type_synonym process_fn = "nat \<Rightarrow> nat \<Rightarrow> state \<Rightarrow> (error + nat) \<times> state"

section \<open>The kernels\<close>

subsection \<open>Assignment to channel 0 of the whole image\<close>

text \<open>
  \<^verbatim>\<open>end_array[:, :, 0] = new\<close> broadcasts the two-dimensional value \<^verbatim>\<open>new\<close> over the
  rows and columns of the image (a dimension of length 1 is repeated), converts every
  element to the image's element type and fails with a ValueError when the shapes do not
  fit. Channels 1 and 2 keep their contents.
\<close>

definition broadcastable :: "nat \<Rightarrow> nat \<Rightarrow> bool" where
  "broadcastable n m = (n = m \<or> n = 1)"

definition bidx :: "nat \<Rightarrow> nat \<Rightarrow> nat" where
  "bidx n i = (if n = 1 then 0 else i)"

fun set_channel0 :: "int \<Rightarrow> cell \<Rightarrow> cell" where
  "set_channel0 v (c0, c1, c2) = (v, c1, c2)"

definition assign_channel0 ::
  "real list list \<Rightarrow> dtype \<Rightarrow> cell list list \<Rightarrow> error + cell list list" where
  "assign_channel0 new dt b =
     (if broadcastable (nrows new) (nrows b) \<and> broadcastable (ncols new) (ncols b)
      then Inr (map (\<lambda>i. map (\<lambda>j. set_channel0
                     (cast dt (new ! bidx (nrows new) i ! bidx (ncols new) j)) (b ! i ! j))
                   [0..<ncols b]) [0..<nrows b])
      else Inl ValueError)"

text \<open>The two statements \<^verbatim>\<open>end_array[:, :, 0] = new; return end_array\<close>.\<close>

definition slice_store :: "nat \<Rightarrow> real list list \<Rightarrow> state \<Rightarrow> (error + nat) \<times> state" where
  "slice_store ea new s = (case image_of s ea of
       Inl e \<Rightarrow> (Inl e, s)
     | Inr (dt, b) \<Rightarrow> (case assign_channel0 new dt b of
           Inl e \<Rightarrow> (Inl e, s)
         | Inr b' \<Rightarrow> (Inr ea, put ea (Image dt b') s)))"

subsection \<open>where, clip, heaviside, piecewise\<close>

text \<open>\<^verbatim>\<open>where(start_array > 0, 255 * start_array, 0)\<close>\<close>

definition where_method_process :: process_fn where
  "where_method_process sa ea s = (case field_of s sa of
       Inl e \<Rightarrow> (Inl e, s)
     | Inr f \<Rightarrow> slice_store ea (map (map (\<lambda>v. if v > 0 then fl (255 * v) else 0)) f) s)"

text \<open>\<^verbatim>\<open>clip(start_array, 0, None) * 255\<close>: no upper bound, the lower bound is 0.\<close>

definition clip :: "real \<Rightarrow> real \<Rightarrow> real" where
  "clip v lo = max v lo"

definition clip_method_process :: process_fn where
  "clip_method_process sa ea s = (case field_of s sa of
       Inl e \<Rightarrow> (Inl e, s)
     | Inr f \<Rightarrow> slice_store ea (map (map (\<lambda>v. fl (clip v 0 * 255))) f) s)"

text \<open>
  \<^verbatim>\<open>heaviside(start_array, 0) * start_array * 255\<close>; numpy's \<^verbatim>\<open>heaviside(x, h0)\<close> is 0
  below zero, \<^verbatim>\<open>h0\<close> at zero and 1 above. The first product, of a double with 0 or 1, is
  exact; the second is rounded.
\<close>

definition heaviside :: "real \<Rightarrow> real \<Rightarrow> real" where
  "heaviside x h0 = (if x < 0 then 0 else if x = 0 then h0 else 1)"

definition heaviside_method_process :: process_fn where
  "heaviside_method_process sa ea s = (case field_of s sa of
       Inl e \<Rightarrow> (Inl e, s)
     | Inr f \<Rightarrow> slice_store ea (map (map (\<lambda>v. fl (heaviside v 0 * v * 255))) f) s)"

text \<open>
  \<^verbatim>\<open>piecewise(start_array, [start_array > 0], [lambda x: x * 255, 0])\<close>: one condition
  and two entries, so the second entry is the value where the condition fails.
\<close>

definition piecewise :: "real \<Rightarrow> bool \<Rightarrow> (real \<Rightarrow> real) \<Rightarrow> real \<Rightarrow> real" where
  "piecewise x cond fn dflt = (if cond then fn x else dflt)"

definition piecewise_method_process :: process_fn where
  "piecewise_method_process sa ea s = (case field_of s sa of
       Inl e \<Rightarrow> (Inl e, s)
     | Inr f \<Rightarrow> slice_store ea (map (map (\<lambda>v. piecewise v (v > 0) (\<lambda>x. fl (x * 255)) 0)) f) s)"

subsection \<open>The two kernels that loop over the cells\<close>

text \<open>
  \<^verbatim>\<open>nested_loop_method\<close> and \<^verbatim>\<open>dask_array_method\<close> run the same two nested loops over
  the indices of the field and differ in the assignment of the body, which is the
  parameter \<^verbatim>\<open>upd\<close>. An index outside the image raises IndexError; the cells written
  before stay written.
\<close>

fun loop_cols ::
  "(real \<Rightarrow> cell \<Rightarrow> cell) \<Rightarrow> real list \<Rightarrow> nat \<Rightarrow> nat \<Rightarrow> cell list list
     \<Rightarrow> error option \<times> cell list list" where
  "loop_cols upd [] x y b = (None, b)"
| "loop_cols upd (v # vs) x y b =
     (if x < length b \<and> y < length (b ! x)
      then loop_cols upd vs x (Suc y) (b[x := (b ! x)[y := upd v (b ! x ! y)]])
      else (Some IndexError, b))"

fun loop_rows ::
  "(real \<Rightarrow> cell \<Rightarrow> cell) \<Rightarrow> real list list \<Rightarrow> nat \<Rightarrow> cell list list
     \<Rightarrow> error option \<times> cell list list" where
  "loop_rows upd [] x b = (None, b)"
| "loop_rows upd (row # rows) x b = (case loop_cols upd row x 0 b of
       (Some e, b') \<Rightarrow> (Some e, b')
     | (None, b') \<Rightarrow> loop_rows upd rows (Suc x) b')"

definition loop_process :: "(dtype \<Rightarrow> real \<Rightarrow> cell \<Rightarrow> cell) \<Rightarrow> process_fn" where
  "loop_process upd sa ea s = (case field_of s sa of
       Inl e \<Rightarrow> (Inl e, s)
     | Inr f \<Rightarrow> (case image_of s ea of
           Inl e \<Rightarrow> (Inl e, s)
         | Inr (dt, b) \<Rightarrow> (case loop_rows (upd dt) f 0 b of
               (Some e, b') \<Rightarrow> (Inl e, put ea (Image dt b') s)
             | (None, b') \<Rightarrow> (Inr ea, put ea (Image dt b') s))))"

text \<open>
  \<^verbatim>\<open>res = start_array[x][y] * 255 if start_array[x][y] > 0 else 0\<close> and
  \<^verbatim>\<open>end_array[x, y] = (res, 0, 0)\<close>
\<close>

definition nested_loop_upd :: "dtype \<Rightarrow> real \<Rightarrow> cell \<Rightarrow> cell" where
  "nested_loop_upd dt v c =
     (let res = (if v > 0 then fl (v * 255) else 0) in (cast dt res, cast dt 0, cast dt 0))"

definition nested_loop_method_process :: process_fn where
  "nested_loop_method_process = loop_process nested_loop_upd"

text \<open>
  \<^verbatim>\<open>res = 255 * start_array[x][y] if start_array[x][y] > 0 else 0\<close> and
  \<^verbatim>\<open>new_end_array[x, y, 0] = res\<close>, where \<^verbatim>\<open>new_end_array\<close> is the parameter of the
  inner function, bound to \<^verbatim>\<open>end_array\<close> by the call.
\<close>

definition dask_array_upd :: "dtype \<Rightarrow> real \<Rightarrow> cell \<Rightarrow> cell" where
  "dask_array_upd dt v c =
     (let res = (if v > 0 then fl (255 * v) else 0) in set_channel0 (cast dt res) c)"

definition dask_array_method_process :: process_fn where
  "dask_array_method_process = loop_process dask_array_upd"

subsection \<open>The two kernels that build a new array\<close>

text \<open>
  \<^verbatim>\<open>array(grid_array_list)\<close> on nested lists of Python integers: numpy chooses its default
  integer type, 64 bits wide; a list without any element gives an array of floats, and
  integers beyond 64 bits give another element type.
\<close>

definition array_of_ints :: "cell list list \<Rightarrow> ndarray" where
  "array_of_ints grid =
     Image (if concat grid = [] then Float64
            else if \<forall>(c0, c1, c2) \<in> set (concat grid).
                      fits_int64 c0 \<and> fits_int64 c1 \<and> fits_int64 c2
                 then IntDefault else BeyondInt64) grid"

text \<open>
  \<^verbatim>\<open>[[(int(value * 255), 0, 0) for value in row] for row in start_array]\<close>: the
  parameter \<^verbatim>\<open>end_array\<close> does not occur in the body.
\<close>

definition list_comprehension_method_process :: process_fn where
  "list_comprehension_method_process sa ea s = (case field_of s sa of
       Inl e \<Rightarrow> (Inl e, s)
     | Inr f \<Rightarrow>
         (let grid_array_list = map (map (\<lambda>v. (trunc (fl (v * 255)), 0, 0))) f;
              (a, s') = alloc (array_of_ints grid_array_list) s
          in (Inr a, s')))"

text \<open>
  \<^verbatim>\<open>parallel_method\<close>: joblib returns the rows' results in the order of the rows, so the
  parallel map is a map. \<^verbatim>\<open>array(..., dtype='int32')\<close> raises OverflowError on a Python
  integer outside 32 bits.
\<close>

definition process_cell :: "real \<Rightarrow> cell" where
  "process_cell v = (if v > 0 then trunc (fl (255 * v)) else 0, 0, 0)"

definition process_row :: "real list \<Rightarrow> error + cell list" where
  "process_row row =
     (let cells = map process_cell row
      in if \<forall>(c0, c1, c2) \<in> set cells. fits_int32 c0 then Inr cells else Inl OverflowError)"

fun parallel_rows :: "real list list \<Rightarrow> error + cell list list" where
  "parallel_rows [] = Inr []"
| "parallel_rows (row # rows) = (case process_row row of
       Inl e \<Rightarrow> Inl e
     | Inr r \<Rightarrow> (case parallel_rows rows of Inl e \<Rightarrow> Inl e | Inr rs \<Rightarrow> Inr (r # rs)))"

definition parallel_method_process :: process_fn where
  "parallel_method_process sa ea s = (case field_of s sa of
       Inl e \<Rightarrow> (Inl e, s)
     | Inr f \<Rightarrow> (case parallel_rows f of
           Inl e \<Rightarrow> (Inl e, s)
         | Inr new_end_array \<Rightarrow>
             (let (a, s') = alloc (Image Int32 new_end_array) s in (Inr a, s'))))"

section \<open>The harness\<close>

subsection \<open>Setup code and the timing namespace\<close>

text \<open>
  A kernel's \<^verbatim>\<open>setup()\<close> returns Python source that the timer executes in its namespace.
  The source is kept in parsed form, as a list of statements of the kinds the eight kernels
  use: an import, a function definition, a call without arguments and the allocation
  \<^verbatim>\<open>x = zeros((A, B, 3), dtype=d)\<close>. A statement binds a name; a name is read from the
  bindings made so far and then from the namespace the timer was given.
\<close>

datatype nsval = Ref nat | IntVal int | Callable string | External string

datatype stmt =
  FromImport string string
  | ImportModule string
  | FunDef string
  | AssignCall string string
  | AssignZeros string string string dtype

type_synonym namespace = "(string \<times> nsval) list"

definition lookup :: "namespace \<Rightarrow> namespace \<Rightarrow> string \<Rightarrow> nsval option" where
  "lookup locals globals x =
     (case map_of locals x of Some v \<Rightarrow> Some v | None \<Rightarrow> map_of globals x)"

definition zeros :: "nat \<Rightarrow> nat \<Rightarrow> dtype \<Rightarrow> ndarray" where
  "zeros r c dt = Image dt (replicate r (replicate c (0, 0, 0)))"

fun exec_stmt :: "namespace \<Rightarrow> stmt \<Rightarrow> namespace \<Rightarrow> state \<Rightarrow> (error + namespace) \<times> state" where
  "exec_stmt globals (FromImport m x) locals s = (Inr ((x, Callable (m @ ''.'' @ x)) # locals), s)"
| "exec_stmt globals (ImportModule m) locals s = (Inr ((m, Callable m) # locals), s)"
| "exec_stmt globals (FunDef f) locals s = (Inr ((f, Callable f) # locals), s)"
| "exec_stmt globals (AssignCall x f) locals s = (case lookup locals globals f of
       None \<Rightarrow> (Inl NameError, s)
     | Some _ \<Rightarrow> (Inr ((x, External f) # locals), s))"
| "exec_stmt globals (AssignZeros x a b dt) locals s = (case lookup locals globals ''zeros'' of
       None \<Rightarrow> (Inl NameError, s)
     | Some _ \<Rightarrow> (case lookup locals globals a of
           None \<Rightarrow> (Inl NameError, s)
         | Some va \<Rightarrow> (case lookup locals globals b of
               None \<Rightarrow> (Inl NameError, s)
             | Some vb \<Rightarrow> (case va of
                   IntVal n \<Rightarrow> (case vb of
                       IntVal m \<Rightarrow>
                         if n < 0 \<or> m < 0 then (Inl ValueError, s)
                         else (let (addr, s') = alloc (zeros (nat n) (nat m) dt) s
                               in (Inr ((x, Ref addr) # locals), s'))
                     | _ \<Rightarrow> (Inl TypeError, s))
                 | _ \<Rightarrow> (Inl TypeError, s)))))"

fun exec_setup ::
  "namespace \<Rightarrow> stmt list \<Rightarrow> namespace \<Rightarrow> state \<Rightarrow> (error + namespace) \<times> state" where
  "exec_setup globals [] locals s = (Inr locals, s)"
| "exec_setup globals (c # cs) locals s = (case exec_stmt globals c locals s of
       (Inl e, s') \<Rightarrow> (Inl e, s')
     | (Inr locals', s') \<Rightarrow> exec_setup globals cs locals' s')"

subsection \<open>The kernel modules\<close>

text \<open>A loaded module: its attributes \<^verbatim>\<open>setup\<close> and \<^verbatim>\<open>process\<close>, each of which may be missing.\<close>

record kmodule =
  m_setup :: "stmt list option"
  m_process :: "process_fn option"

definition nested_loop_method :: kmodule where
  "nested_loop_method = \<lparr>m_setup = Some [], m_process = Some nested_loop_method_process\<rparr>"

definition list_comprehension_method :: kmodule where
  "list_comprehension_method =
     \<lparr>m_setup = Some [FromImport ''numpy'' ''array''],
      m_process = Some list_comprehension_method_process\<rparr>"

definition parallel_method :: kmodule where
  "parallel_method =
     \<lparr>m_setup = Some [FromImport ''numpy'' ''array'', FromImport ''joblib'' ''Parallel'',
        FromImport ''joblib'' ''delayed'', FromImport ''multiprocessing'' ''cpu_count'',
        AssignCall ''n_jobs'' ''cpu_count'', FunDef ''process_cell'', FunDef ''process_row''],
      m_process = Some parallel_method_process\<rparr>"

definition where_method :: kmodule where
  "where_method =
     \<lparr>m_setup = Some [FromImport ''numpy'' ''where''], m_process = Some where_method_process\<rparr>"

definition clip_method :: kmodule where
  "clip_method =
     \<lparr>m_setup = Some [FromImport ''numpy'' ''clip''], m_process = Some clip_method_process\<rparr>"

definition heaviside_method :: kmodule where
  "heaviside_method =
     \<lparr>m_setup = Some [FromImport ''numpy'' ''heaviside''],
      m_process = Some heaviside_method_process\<rparr>"

definition piecewise_method :: kmodule where
  "piecewise_method =
     \<lparr>m_setup = Some [FromImport ''numpy'' ''piecewise'', FunDef ''positive_multiplier''],
      m_process = Some piecewise_method_process\<rparr>"

definition dask_array_method :: kmodule where
  "dask_array_method =
     \<lparr>m_setup = Some [FromImport ''numpy'' ''zeros'', FromImport ''numpy'' ''uint64'',
        ImportModule ''numba'', AssignZeros ''new_end_array'' ''GRID_ROW'' ''GRID_COL'' UInt64],
      m_process = Some dask_array_method_process\<rparr>"

subsection \<open>utils.py\<close>

text \<open>
  The directory \<^verbatim>\<open>src/methods\<close>: file names with what importing the file gives, a module
  or a failure of the import.
\<close>

type_synonym directory = "(string \<times> kmodule option) list"

definition endswith :: "string \<Rightarrow> string \<Rightarrow> bool" where
  "endswith f suffix = (length suffix \<le> length f \<and> drop (length f - length suffix) f = suffix)"

definition import_module :: "directory \<Rightarrow> string \<Rightarrow> error + kmodule" where
  "import_module dir name = (case map_of dir (name @ ''.py'') of
       Some (Some m) \<Rightarrow> Inr m
     | _ \<Rightarrow> Inl ImportError)"

text \<open>\<^verbatim>\<open>methods[method_file] = module\<close> on a dictionary, which keeps the order of insertion.\<close>

fun dict_set :: "'k \<Rightarrow> 'v \<Rightarrow> ('k \<times> 'v) list \<Rightarrow> ('k \<times> 'v) list" where
  "dict_set k v [] = [(k, v)]"
| "dict_set k v ((k', v') # ps) = (if k' = k then (k, v) # ps else (k', v') # dict_set k v ps)"

fun load_methods ::
  "directory \<Rightarrow> string list \<Rightarrow> (string \<times> kmodule) list \<Rightarrow> error + (string \<times> kmodule) list" where
  "load_methods dir [] methods = Inr methods"
| "load_methods dir (method_file # rest) methods = (case import_module dir method_file of
       Inl e \<Rightarrow> Inl e
     | Inr m \<Rightarrow> load_methods dir rest (dict_set method_file m methods))"

definition create_methods_list :: "directory \<Rightarrow> error + (string \<times> kmodule) list" where
  "create_methods_list dir =
     (let method_files = [take (length f - 3) f. f \<leftarrow> map fst dir,
                            endswith f ''.py'' \<and> f \<noteq> ''__init__.py'']
      in load_methods dir method_files [])"

text \<open>The noise generator is outside the repository: \<^verbatim>\<open>noise\<close> stands for \<^verbatim>\<open>fn.genAsGrid\<close>.\<close>

definition create_base_arrays ::
  "(nat \<Rightarrow> nat \<Rightarrow> real list list) \<Rightarrow> nat \<Rightarrow> nat \<Rightarrow> state \<Rightarrow> (nat \<times> nat) \<times> state" where
  "create_base_arrays noise GRID_ROW GRID_COL s =
     (let (start_array, s1) = alloc (Field (noise GRID_ROW GRID_COL)) s;
          (end_array, s2) = alloc (zeros GRID_ROW GRID_COL UInt8) s1
      in ((start_array, end_array), s2))"

subsection \<open>The timer\<close>

text \<open>
  What the harness does besides changing the store is recorded in a trace the kernels
  cannot reach: each execution of the setup code, each reading of the clock and each call
  of the timed statement. The clock is an input: \<^verbatim>\<open>clk k\<close> is the value of its
  reading number \<^verbatim>\<open>k\<close>.
\<close>

datatype event = ExecSetup | ReadClock | Invoke

record hstate =
  world :: state
  trace :: "event list"

definition reads :: "hstate \<Rightarrow> nat" where
  "reads h = length (filter (\<lambda>e. e = ReadClock) (trace h))"

definition log :: "event \<Rightarrow> hstate \<Rightarrow> hstate" where
  "log e h = h\<lparr>trace := trace h @ [e]\<rparr>"

definition print_lines :: "line list \<Rightarrow> hstate \<Rightarrow> hstate" where
  "print_lines ls h = h\<lparr>world := (world h)\<lparr>stdout := stdout (world h) @ ls\<rparr>\<rparr>"

definition call_stmt :: "(state \<Rightarrow> (error + nat) \<times> state) \<Rightarrow> hstate \<Rightarrow> (error + unit) \<times> hstate" where
  "call_stmt stmt h = (case stmt (world h) of
       (Inl e, w) \<Rightarrow> (Inl e, (log Invoke h)\<lparr>world := w\<rparr>)
     | (Inr _, w) \<Rightarrow> (Inr (), (log Invoke h)\<lparr>world := w\<rparr>))"

fun repeat_stmt ::
  "nat \<Rightarrow> (state \<Rightarrow> (error + nat) \<times> state) \<Rightarrow> hstate \<Rightarrow> (error + unit) \<times> hstate" where
  "repeat_stmt 0 stmt h = (Inr (), h)"
| "repeat_stmt (Suc n) stmt h = (case call_stmt stmt h of
       (Inl e, h') \<Rightarrow> (Inl e, h')
     | (Inr _, h') \<Rightarrow> repeat_stmt n stmt h')"

text \<open>
  \<^verbatim>\<open>Timer.timeit(number)\<close>: the setup code runs in the body of the timing function, so
  its bindings are locals that end with the call; then the clock is read, the statement is
  called \<^verbatim>\<open>number\<close> times, the clock is read again and the difference is returned.
\<close>

definition timeit ::
  "(nat \<Rightarrow> real) \<Rightarrow> namespace \<Rightarrow> stmt list \<Rightarrow> (state \<Rightarrow> (error + nat) \<times> state) \<Rightarrow> nat
     \<Rightarrow> hstate \<Rightarrow> (error + real) \<times> hstate" where
  "timeit clk globals setup_code stmt number h =
     (case exec_setup globals setup_code [] (world h) of
        (Inl e, w) \<Rightarrow> (Inl e, (log ExecSetup h)\<lparr>world := w\<rparr>)
      | (Inr locals, w) \<Rightarrow>
          (let h1 = (log ExecSetup h)\<lparr>world := w\<rparr>;
               t0 = clk (reads h1);
               h2 = log ReadClock h1
           in case repeat_stmt number stmt h2 of
                (Inl e, h3) \<Rightarrow> (Inl e, h3)
              | (Inr _, h3) \<Rightarrow> (Inr (clk (reads h3) - t0), log ReadClock h3)))"

subsection \<open>benchmark.py\<close>

text \<open>
  The settings of the module. Its names \<^verbatim>\<open>start_array\<close> and \<^verbatim>\<open>end_array\<close> hold the two
  arrays made once by \<^verbatim>\<open>create_base_arrays\<close>; they are the parameters \<^verbatim>\<open>sa\<close> and \<^verbatim>\<open>ea\<close>
  of \<^verbatim>\<open>display_results\<close> below.
\<close>

record settings =
  SIZE :: "nat \<times> nat"
  NUM_TRIALS :: nat
  NUM_WARMUP :: nat
  DEBUG :: bool

text \<open>\<^verbatim>\<open>[timer.timeit(number=NUM_WARMUP) for _ in range(NUM_WARMUP)]\<close>\<close>

fun warmup_loop ::
  "nat \<Rightarrow> (hstate \<Rightarrow> (error + real) \<times> hstate) \<Rightarrow> hstate \<Rightarrow> (error + real list) \<times> hstate" where
  "warmup_loop 0 run h = (Inr [], h)"
| "warmup_loop (Suc k) run h = (case run h of
       (Inl e, h') \<Rightarrow> (Inl e, h')
     | (Inr t, h') \<Rightarrow> (case warmup_loop k run h' of
           (Inl e, h'') \<Rightarrow> (Inl e, h'')
         | (Inr ts, h'') \<Rightarrow> (Inr (t # ts), h'')))"

text \<open>The statement under \<^verbatim>\<open>if NUM_WARMUP > 0\<close>: the list of timings is not bound to a name.\<close>

definition warmup ::
  "settings \<Rightarrow> (nat \<Rightarrow> hstate \<Rightarrow> (error + real) \<times> hstate) \<Rightarrow> hstate \<Rightarrow> (error + unit) \<times> hstate" where
  "warmup g timer h =
     (if NUM_WARMUP g > 0
      then (case warmup_loop (NUM_WARMUP g) (timer (NUM_WARMUP g)) h of
              (Inl e, h') \<Rightarrow> (Inl e, h')
            | (Inr _, h') \<Rightarrow> (Inr (), h'))
      else (Inr (), h))"

text \<open>
  \<^verbatim>\<open>benchmark(setup, process, start_array, end_array)\<close>. The namespace \<^verbatim>\<open>_NS\<close> receives
  the copies; the timed statement is the lambda, whose \<^verbatim>\<open>start_array\<close> and \<^verbatim>\<open>end_array\<close>
  are the parameters of \<^verbatim>\<open>benchmark\<close>.
\<close>

definition benchmark ::
  "settings \<Rightarrow> (nat \<Rightarrow> real) \<Rightarrow> stmt list \<Rightarrow> process_fn \<Rightarrow> nat \<Rightarrow> nat \<Rightarrow> hstate
     \<Rightarrow> (error + real \<times> real) \<times> hstate" where
  "benchmark g clk setup_code process sa ea h =
     (case copy sa (world h) of
        (Inl e, w1) \<Rightarrow> (Inl e, h\<lparr>world := w1\<rparr>)
      | (Inr start_copy, w1) \<Rightarrow> (case copy ea w1 of
            (Inl e, w2) \<Rightarrow> (Inl e, h\<lparr>world := w2\<rparr>)
          | (Inr end_copy, w2) \<Rightarrow>
              (let NS = [(''start_array'', Ref start_copy), (''end_array'', Ref end_copy),
                         (''GRID_ROW'', IntVal (int (fst (SIZE g)))),
                         (''GRID_COL'', IntVal (int (snd (SIZE g))))];
                   timer = timeit clk NS setup_code (process sa ea)
               in case warmup g timer (h\<lparr>world := w2\<rparr>) of
                    (Inl e, h3) \<Rightarrow> (Inl e, h3)
                  | (Inr _, h3) \<Rightarrow> (case timer (NUM_TRIALS g) h3 of
                        (Inl e, h4) \<Rightarrow> (Inl e, h4)
                      | (Inr elapsed_time, h4) \<Rightarrow>
                          (let h5 = (if DEBUG g then print_lines [ProfilerStats] h4 else h4)
                           in if NUM_TRIALS g = 0 then (Inl ZeroDivisionError, h5)
                              else (Inr (elapsed_time,
                                         elapsed_time / real (NUM_TRIALS g) * 1000), h5))))))"

text \<open>The loop of \<^verbatim>\<open>display_results\<close> over \<^verbatim>\<open>methods.items()\<close>.\<close>

type_synonym result = "string \<times> real \<times> real"

fun run_methods ::
  "settings \<Rightarrow> (nat \<Rightarrow> real) \<Rightarrow> nat \<Rightarrow> nat \<Rightarrow> (string \<times> kmodule) list \<Rightarrow> result list \<Rightarrow> real
     \<Rightarrow> hstate \<Rightarrow> (error + result list \<times> real) \<times> hstate" where
  "run_methods g clk sa ea [] results overall h = (Inr (results, overall), h)"
| "run_methods g clk sa ea ((method_name, m) # rest) results overall h =
     (case m_setup m of
        None \<Rightarrow> (Inl AttributeError, h)
      | Some setup_code \<Rightarrow> (case m_process m of
            None \<Rightarrow> (Inl AttributeError, h)
          | Some process \<Rightarrow> (case benchmark g clk setup_code process sa ea h of
                (Inl e, h') \<Rightarrow> (Inl e, h')
              | (Inr (total_time, avg_time), h') \<Rightarrow>
                  run_methods g clk sa ea rest (results @ [(method_name, avg_time, total_time)])
                    (overall + total_time) h')))"

text \<open>\<^verbatim>\<open>sorted(results, key=lambda x: x[1])\<close>: Python's sort is stable.\<close>

definition sorted_results :: "result list \<Rightarrow> result list" where
  "sorted_results results = sort_key (\<lambda>x. fst (snd x)) results"

definition result_line :: "result \<Rightarrow> line" where
  "result_line r = (case r of (method_name, avg_time, total_time) \<Rightarrow>
     ResultLine method_name avg_time total_time)"

definition display_results ::
  "settings \<Rightarrow> (nat \<Rightarrow> real) \<Rightarrow> nat \<Rightarrow> nat \<Rightarrow> (string \<times> kmodule) list \<Rightarrow> hstate
     \<Rightarrow> (error + unit) \<times> hstate" where
  "display_results g clk sa ea methods h =
     (let h1 = print_lines [Separator, Started (fst (SIZE g)) (snd (SIZE g)) (NUM_TRIALS g),
                            Separator] h
      in case run_methods g clk sa ea methods [] 0 h1 of
           (Inl e, h2) \<Rightarrow> (Inl e, h2)
         | (Inr (results, overall), h2) \<Rightarrow>
             (Inr (), print_lines [Separator, TotalRuntime overall, Separator]
                        (print_lines (map result_line (sorted_results results)) h2)))"

text \<open>
  Running the script: the module's top level builds the registry and the two arrays, then
  \<^verbatim>\<open>main\<close> calls \<^verbatim>\<open>display_results(methods)\<close>.
\<close>

definition main ::
  "settings \<Rightarrow> (nat \<Rightarrow> real) \<Rightarrow> (nat \<Rightarrow> nat \<Rightarrow> real list list) \<Rightarrow> directory \<Rightarrow> hstate
     \<Rightarrow> (error + unit) \<times> hstate" where
  "main g clk noise dir h = (case create_methods_list dir of
       Inl e \<Rightarrow> (Inl e, h)
     | Inr methods \<Rightarrow>
         (let ((sa, ea), w) = create_base_arrays noise (fst (SIZE g)) (snd (SIZE g)) (world h)
          in display_results g clk sa ea methods (h\<lparr>world := w\<rparr>)))"

section \<open>Notions the properties are stated with\<close>

text \<open>
  The transform as the specification words it: channel 0 of a cell is the 8-bit value of 255
  times the field's value (the product as a double) where that value is strictly positive
  and 0 elsewhere, and channels 1 and 2 are 0.
\<close>

definition reference_image :: "real list list \<Rightarrow> cell list list" where
  "reference_image f =
     map (map (\<lambda>v. (if v > 0 then cast UInt8 (fl (255 * v)) else 0, 0, 0))) f"

text \<open>One round of the timer, as it appears in the trace: \<^verbatim>\<open>n\<close> calls between two readings.\<close>

definition round_trace :: "nat \<Rightarrow> event list" where
  "round_trace n = ExecSetup # ReadClock # replicate n Invoke @ [ReadClock]"

text \<open>
  What a call of the timed statement and a round of the timer do to the store: a round
  executes the setup code and then calls the statement \<^verbatim>\<open>n\<close> times.
\<close>

definition invoke :: "(state \<Rightarrow> (error + nat) \<times> state) \<Rightarrow> state \<Rightarrow> state" where
  "invoke stmt w = snd (stmt w)"

definition timer_round ::
  "namespace \<Rightarrow> stmt list \<Rightarrow> (state \<Rightarrow> (error + nat) \<times> state) \<Rightarrow> nat \<Rightarrow> state \<Rightarrow> state" where
  "timer_round globals setup_code stmt n w =
     (invoke stmt ^^ n) (snd (exec_setup globals setup_code [] w))"

section \<open>Example stores\<close>

text \<open>Each holds the field at address 0 and the zeroed 8-bit image at address 1.\<close>

definition small_state :: state where
  "small_state = \<lparr>heap = [Field [[double_0_6, -1/2]], Image UInt8 [[(0, 0, 0), (0, 0, 0)]]],
     stdout = []\<rparr>"

definition scenario_field :: "real list list" where
  "scenario_field = [[-1/2, 1/4, 0, 1], [-1, double_0_6, 1/256, -3/8], [0, 0, 1/2, 5/8],
     [1, -1, 7/8, 1/8]]"

definition scenario_state :: state where
  "scenario_state = \<lparr>heap = [Field scenario_field, Image UInt8 (replicate 4 (replicate 4 (0, 0, 0)))],
     stdout = []\<rparr>"

text \<open>A 4 by 4 field with the two cells of the scenario and a cell above 1.\<close>

definition wide_field :: "real list list" where
  "wide_field = [[-1/2, 0, 0, 0], [0, double_0_6, 0, 0], [0, 0, 2, 0], [0, 0, 0, 0]]"

definition wide_state :: state where
  "wide_state = \<lparr>heap = [Field wide_field, Image UInt8 (replicate 4 (replicate 4 (0, 0, 0)))],
     stdout = []\<rparr>"

text \<open>A field without rows, a field with a cell of ten million, and a buffer of sevens.\<close>

definition empty_state :: state where
  "empty_state = \<lparr>heap = [Field [], Image UInt8 []], stdout = []\<rparr>"

definition huge_state :: state where
  "huge_state = \<lparr>heap = [Field [[10000000]], Image UInt8 [[(0, 0, 0)]]], stdout = []\<rparr>"

definition sevens :: ndarray where
  "sevens = Image UInt8 [[(7, 7, 7), (7, 7, 7)]]"

definition negative_state :: state where
  "negative_state = \<lparr>heap = [Field [[-1/2]], Image UInt8 [[(0, 0, 0)]]], stdout = []\<rparr>"

text \<open>Stores, settings, clocks and directories for the harness.\<close>

definition tiny_world :: state where
  "tiny_world = \<lparr>heap = [Field [[double_0_6]], Image UInt8 [[(0, 0, 0)]]], stdout = []\<rparr>"

definition tiny :: hstate where
  "tiny = \<lparr>world = tiny_world, trace = []\<rparr>"

definition quick :: settings where
  "quick = \<lparr>SIZE = (1, 1), NUM_TRIALS = 1, NUM_WARMUP = 1, DEBUG = False\<rparr>"

definition twice :: settings where
  "twice = \<lparr>SIZE = (1, 1), NUM_TRIALS = 1, NUM_WARMUP = 2, DEBUG = False\<rparr>"

definition ticks :: "nat \<Rightarrow> real" where
  "ticks k = real k"

definition flat_noise :: "nat \<Rightarrow> nat \<Rightarrow> real list list" where
  "flat_noise r c = replicate r (replicate c double_0_6)"

definition unfinished_method :: kmodule where
  "unfinished_method = \<lparr>m_setup = Some [], m_process = None\<rparr>"

definition unfinished_dir :: directory where
  "unfinished_dir = [(''__init__.py'', None), (''where_method.py'', Some where_method),
     (''wip_method.py'', Some unfinished_method)]"

definition blank :: hstate where
  "blank = \<lparr>world = \<lparr>heap = [], stdout = []\<rparr>, trace = []\<rparr>"


definition uneven :: "nat \<Rightarrow> real" where
  "uneven k = (if k < 3 then 0 else if k < 7 then 5 else 6)"

section \<open>Properties of the kernels\<close>

subsection \<open>Rounding to a double\<close>

lemmas fl_eval = fl_def exponent_def pow2_def round_half_even_def bitlength.simps Let_def

lemma fl_zero [simp]: "fl 0 = 0"
  by (simp add: fl_def)

text \<open>The product of the double 0.6 with 255 lies below 153 and rounds to 153.\<close>

lemma double_0_6_product: "255 * double_0_6 < 153" "\<lfloor>255 * double_0_6\<rfloor> = 152"
  by (simp_all add: double_0_6_def)

lemma fl_double_0_6 [simp]: "fl (255 * double_0_6) = 153" "fl (double_0_6 * 255) = 153"
  by (simp_all add: fl_eval double_0_6_def)

lemma double_0_6_unit [simp]: "0 < double_0_6" "\<not> double_0_6 \<le> 0" "double_0_6 \<le> 1"
  "\<bar>double_0_6\<bar> \<le> 1"
  by (simp_all add: double_0_6_def)

lemma bitlength_le: "n < 2 ^ k \<Longrightarrow> bitlength n \<le> k"
proof (induction k arbitrary: n)
  case 0
  then show ?case by (simp add: bitlength.simps)
next
  case (Suc k)
  then have "n div 2 < 2 ^ k" by simp
  from Suc.IH [OF this] show ?case by (subst bitlength.simps) simp
qed

lemma exponent_le_7:
  assumes "\<bar>x\<bar> \<le> 255"
  shows "exponent x \<le> 7"
proof (cases "1 \<le> \<bar>x\<bar>")
  case True
  have "nat \<lfloor>\<bar>x\<bar>\<rfloor> < 2 ^ 8" using assms by simp linarith
  from bitlength_le [OF this] True show ?thesis by (simp add: exponent_def)
next
  case False
  then show ?thesis by (simp add: exponent_def Let_def)
qed

lemma round_half_even_bounds: "\<lfloor>q\<rfloor> \<le> round_half_even q \<and> round_half_even q \<le> \<lceil>q\<rceil>"
proof -
  have "q - of_int \<lfloor>q\<rfloor> < 1 / 2 \<or> \<lfloor>q\<rfloor> + 1 \<le> \<lceil>q\<rceil>"
    by (simp add: ceiling_altdef)
  moreover have "\<lfloor>q\<rfloor> \<le> \<lceil>q\<rceil>" by (simp add: floor_le_ceiling)
  ultimately show ?thesis
    by (auto simp: round_half_even_def Let_def)
qed

lemma pow2_pos: "0 < pow2 k"
  by (simp add: pow2_def)

text \<open>Rounding keeps the sign, and keeps a number within the bounds -255 and 255.\<close>

lemma fl_nonneg:
  assumes "0 \<le> x"
  shows "0 \<le> fl x"
proof (cases "x = 0")
  case True
  then show ?thesis by simp
next
  case False
  let ?u = "pow2 (max (exponent x) (- 1022) - 52)"
  have "0 \<le> x / ?u" using assms pow2_pos [of "max (exponent x) (- 1022) - 52"] by simp
  then have "0 \<le> \<lfloor>x / ?u\<rfloor>" by simp
  with round_half_even_bounds [of "x / ?u"] have "0 \<le> round_half_even (x / ?u)" by linarith
  then have "0 \<le> real_of_int (round_half_even (x / ?u)) * ?u"
    using pow2_pos [of "max (exponent x) (- 1022) - 52"] by simp
  with False show ?thesis by (simp add: fl_def Let_def)
qed

lemma fl_bounds:
  assumes "\<bar>x\<bar> \<le> 255"
  shows "- 255 \<le> fl x \<and> fl x \<le> 255"
proof (cases "x = 0")
  case True
  then show ?thesis by simp
next
  case False
  define j where "j = max (exponent x) (- 1022) - 52"
  define m where "m = nat (- j)"
  have "exponent x \<le> 7" using assms by (rule exponent_le_7)
  then have j: "j < 0" by (simp add: j_def)
  then have u: "pow2 j = 1 / 2 ^ m" by (simp add: pow2_def m_def)
  let ?q = "x / pow2 j"
  have q: "?q = x * 2 ^ m" by (simp add: u)
  have "?q \<le> of_int (255 * 2 ^ m)" using assms by (simp add: q)
  then have "\<lceil>?q\<rceil> \<le> 255 * 2 ^ m" by (simp add: ceiling_le_iff)
  with round_half_even_bounds [of ?q] have "round_half_even ?q \<le> 255 * 2 ^ m" by linarith
  then have "real_of_int (round_half_even ?q) \<le> real_of_int (255 * 2 ^ m)"
    by (simp only: of_int_le_iff)
  then have "real_of_int (round_half_even ?q) \<le> 255 * 2 ^ m" by simp
  then have hi: "real_of_int (round_half_even ?q) * pow2 j \<le> 255"
    by (simp add: u pos_divide_le_eq)
  have "- 255 \<le> x" using assms by simp
  then have "(- 255) * 2 ^ m \<le> x * 2 ^ m" by (intro mult_right_mono) simp_all
  then have "of_int (- 255 * 2 ^ m) \<le> ?q" by (simp add: q)
  then have "- 255 * 2 ^ m \<le> \<lfloor>?q\<rfloor>" by (simp add: le_floor_iff)
  with round_half_even_bounds [of ?q] have "- 255 * 2 ^ m \<le> round_half_even ?q" by linarith
  then have "real_of_int (- 255 * 2 ^ m) \<le> real_of_int (round_half_even ?q)"
    by (simp only: of_int_le_iff)
  then have "- 255 * 2 ^ m \<le> real_of_int (round_half_even ?q)" by simp
  then have lo: "- 255 \<le> real_of_int (round_half_even ?q) * pow2 j"
    by (simp add: u pos_le_divide_eq)
  from lo hi False show ?thesis by (simp add: fl_def Let_def j_def)
qed

subsection \<open>The kernels that write into the image\<close>

lemma cell_formulas:
  "fl (clip v 0 * 255) = (if v > 0 then fl (255 * v) else 0)"
  "fl (heaviside v 0 * v * 255) = (if v > 0 then fl (255 * v) else 0)"
  "piecewise v (v > 0) (\<lambda>x. fl (x * 255)) 0 = (if v > 0 then fl (255 * v) else 0)"
  by (auto simp: clip_def heaviside_def piecewise_def max_def mult.commute)

lemma ncols_rect: "rect r c a \<Longrightarrow> 0 < r \<Longrightarrow> ncols a = c"
  by (cases a) (auto simp: rect_def ncols_def)

lemma ncols_Nil [simp]: "ncols [] = 0"
  by (simp add: ncols_def)

lemma assign_channel0_rect:
  assumes "rect r c new" "rect r c b"
  shows "assign_channel0 new dt b =
    Inr (map2 (map2 (\<lambda>v cl. set_channel0 (cast dt v) cl)) new b)"
proof (cases "r = 0")
  case True
  with assms show ?thesis by (simp add: rect_def assign_channel0_def nrows_def broadcastable_def)
next
  case False
  then have r: "0 < r" by simp
  have n: "nrows new = r" "nrows b = r" "ncols new = c" "ncols b = c"
    using assms r by (simp_all add: nrows_def ncols_rect) (simp_all add: rect_def)
  have len: "length new = r" "length b = r" using assms by (simp_all add: rect_def)
  have rows: "\<And>i. i < r \<Longrightarrow> length (new ! i) = c \<and> length (b ! i) = c"
    using assms by (simp add: rect_def)
  have "map (\<lambda>i. map (\<lambda>j. set_channel0 (cast dt (new ! bidx r i ! bidx c j)) (b ! i ! j))
                   [0..<c]) [0..<r] = map2 (map2 (\<lambda>v cl. set_channel0 (cast dt v) cl)) new b"
  proof (rule nth_equalityI)
    show "length (map (\<lambda>i. map (\<lambda>j. set_channel0 (cast dt (new ! bidx r i ! bidx c j)) (b ! i ! j))
                   [0..<c]) [0..<r]) = length (map2 (map2 (\<lambda>v cl. set_channel0 (cast dt v) cl)) new b)"
      using len by simp
  next
    fix i assume "i < length (map (\<lambda>i. map (\<lambda>j. set_channel0 (cast dt (new ! bidx r i ! bidx c j)) (b ! i ! j))
                   [0..<c]) [0..<r])"
    then have i: "i < r" by simp
    have bi: "bidx r i = i" using i by (auto simp: bidx_def)
    have "map (\<lambda>j. set_channel0 (cast dt (new ! i ! bidx c j)) (b ! i ! j)) [0..<c]
        = map2 (\<lambda>v cl. set_channel0 (cast dt v) cl) (new ! i) (b ! i)"
      using rows[OF i] by (intro nth_equalityI) (auto simp: bidx_def)
    then show "map (\<lambda>i. map (\<lambda>j. set_channel0 (cast dt (new ! bidx r i ! bidx c j)) (b ! i ! j))
                   [0..<c]) [0..<r] ! i = map2 (map2 (\<lambda>v cl. set_channel0 (cast dt v) cl)) new b ! i"
      using i len bi by simp
  qed
  then show ?thesis
    by (simp add: assign_channel0_def n broadcastable_def)
qed

lemma loop_cols_append:
  "length pre = x \<Longrightarrow> length cpre = y \<Longrightarrow> length vs = length mid \<Longrightarrow>
   loop_cols upd vs x y (pre @ (cpre @ mid @ cpost) # post)
     = (None, pre @ (cpre @ map2 upd vs mid @ cpost) # post)"
proof (induction vs arbitrary: y cpre mid)
  case Nil
  then show ?case by simp
next
  case (Cons v vs)
  then obtain m ms where mid: "mid = m # ms" by (cases mid) auto
  have "loop_cols upd vs x (Suc y) (pre @ ((cpre @ [upd v m]) @ ms @ cpost) # post)
     = (None, pre @ ((cpre @ [upd v m]) @ map2 upd vs ms @ cpost) # post)"
    using Cons.prems mid by (intro Cons.IH) auto
  then show ?case using Cons.prems mid
    by (simp add: nth_append list_update_append)
qed

lemma loop_rows_append:
  "length pre = x \<Longrightarrow> list_all2 (\<lambda>vs r. length vs = length r) f mid \<Longrightarrow>
   loop_rows upd f x (pre @ mid @ post) = (None, pre @ map2 (map2 upd) f mid @ post)"
proof (induction f arbitrary: x pre mid)
  case Nil
  then show ?case by simp
next
  case (Cons row rows)
  then obtain m ms where mid: "mid = m # ms" "length row = length m"
     "list_all2 (\<lambda>vs r. length vs = length r) rows ms"
    by (cases mid) auto
  have c: "loop_cols upd row x 0 (pre @ ([] @ m @ []) # (ms @ post))
      = (None, pre @ ([] @ map2 upd row m @ []) # (ms @ post))"
    using Cons.prems mid by (intro loop_cols_append) auto
  have "loop_rows upd rows (Suc x) ((pre @ [map2 upd row m]) @ ms @ post)
      = (None, (pre @ [map2 upd row m]) @ map2 (map2 upd) rows ms @ post)"
    using Cons.prems mid by (intro Cons.IH) auto
  with c show ?case using mid by simp
qed

lemma loop_rows_rect:
  assumes "rect r c f" "rect r c b"
  shows "loop_rows upd f 0 b = (None, map2 (map2 upd) f b)"
proof -
  have "list_all2 (\<lambda>vs r. length vs = length r) f b"
    using assms by (auto simp: rect_def list_all2_conv_all_nth)
  from loop_rows_append[of "[]" 0 f b upd "[]", OF _ this] show ?thesis by simp
qed

lemma map2_replicate_right: "length xs = n \<Longrightarrow> map2 h xs (replicate n z) = map (\<lambda>x. h x z) xs"
  by (induction xs arbitrary: n) auto

lemma map2_zero_image:
  assumes "rect r c f"
  shows "map2 (map2 h) f (replicate r (replicate c z)) = map (map (\<lambda>v. h v z)) f"
proof -
  have "map2 (map2 h) f (replicate r (replicate c z)) = map (\<lambda>row. map2 h row (replicate c z)) f"
    using assms by (simp add: rect_def map2_replicate_right)
  also have "\<dots> = map (map (\<lambda>v. h v z)) f"
    using assms by (intro map_cong refl map2_replicate_right) (simp add: rect_def)
  finally show ?thesis .
qed

lemma rect_replicate [simp]: "rect r c (replicate r (replicate c z))"
  by (simp add: rect_def)

lemma rect_map_map [simp]: "rect r c (map (map g) f) = rect r c f"
  by (simp add: rect_def)

lemma cast_zero [simp]: "cast dt 0 = 0"
  by (cases dt) (simp_all add: cast_def trunc_def)

lemma slice_store_zero:
  assumes "fetch s ea = Some (Image dt (replicate r (replicate c (0, 0, 0))))" "rect r c f"
  shows "slice_store ea (map (map g) f) s
     = (Inr ea, put ea (Image dt (map (map (\<lambda>v. (cast dt (g v), 0, 0))) f)) s)"
proof -
  have "assign_channel0 (map (map g) f) dt (replicate r (replicate c (0, 0, 0)))
      = Inr (map (map (\<lambda>v. (cast dt (g v), 0, 0))) f)"
    using assms(2) by (simp add: assign_channel0_rect [of r c] map2_zero_image [of r c] o_def)
  then show ?thesis using assms(1) by (simp add: slice_store_def image_of_def)
qed

lemma where_zero:
  assumes "fetch s sa = Some (Field f)"
    and "fetch s ea = Some (Image UInt8 (replicate r (replicate c (0, 0, 0))))" and "rect r c f"
  shows "where_method_process sa ea s = (Inr ea, put ea (Image UInt8 (reference_image f)) s)"
proof -
  have "(\<lambda>v::real. (cast UInt8 (if v > 0 then fl (255 * v) else 0), 0::int, 0::int))
      = (\<lambda>v. (if v > 0 then cast UInt8 (fl (255 * v)) else 0, 0, 0))"
    by (rule ext) simp
  then show ?thesis using assms
    by (simp add: where_method_process_def field_of_def slice_store_zero [of _ _ _ r c] reference_image_def)
qed

lemma slice_kernels_same:
  "clip_method_process = where_method_process"
  "heaviside_method_process = where_method_process"
  "piecewise_method_process = where_method_process"
  by (intro ext, simp add: clip_method_process_def heaviside_method_process_def
        piecewise_method_process_def where_method_process_def cell_formulas
        cong: sum.case_cong)+

lemma loop_process_zero:
  assumes "fetch s sa = Some (Field f)"
    and "fetch s ea = Some (Image dt (replicate r (replicate c (0, 0, 0))))" and "rect r c f"
  shows "loop_process upd sa ea s
     = (Inr ea, put ea (Image dt (map (map (\<lambda>v. upd dt v (0, 0, 0))) f)) s)"
  using assms
  by (simp add: loop_process_def field_of_def image_of_def loop_rows_rect [of r c]
        map2_zero_image [of r c])

lemma nested_zero:
  assumes "fetch s sa = Some (Field f)"
    and "fetch s ea = Some (Image UInt8 (replicate r (replicate c (0, 0, 0))))" and "rect r c f"
  shows "nested_loop_method_process sa ea s = (Inr ea, put ea (Image UInt8 (reference_image f)) s)"
proof -
  have "(\<lambda>v::real. nested_loop_upd UInt8 v (0, 0, 0))
      = (\<lambda>v. (if v > 0 then cast UInt8 (fl (255 * v)) else 0, 0, 0))"
    by (rule ext) (simp add: nested_loop_upd_def mult.commute)
  then show ?thesis
    by (simp add: nested_loop_method_process_def loop_process_zero [OF assms] reference_image_def)
qed

lemma dask_zero:
  assumes "fetch s sa = Some (Field f)"
    and "fetch s ea = Some (Image UInt8 (replicate r (replicate c (0, 0, 0))))" and "rect r c f"
  shows "dask_array_method_process sa ea s = (Inr ea, put ea (Image UInt8 (reference_image f)) s)"
proof -
  have "(\<lambda>v::real. dask_array_upd UInt8 v (0, 0, 0))
      = (\<lambda>v. (if v > 0 then cast UInt8 (fl (255 * v)) else 0, 0, 0))"
    by (rule ext) (simp add: dask_array_upd_def)
  then show ?thesis
    by (simp add: dask_array_method_process_def loop_process_zero [OF assms] reference_image_def)
qed

lemma trunc_unit:
  assumes "0 < v" "v \<le> 1"
  shows "0 \<le> trunc (fl (255 * v))" "trunc (fl (255 * v)) \<le> 255"
proof -
  have "\<bar>255 * v\<bar> \<le> 255" using assms by simp
  from fl_bounds [OF this] have hi: "fl (255 * v) \<le> 255" by simp
  have lo: "0 \<le> fl (255 * v)" using assms by (intro fl_nonneg) simp
  from hi have "\<lfloor>fl (255 * v)\<rfloor> \<le> \<lfloor>255::real\<rfloor>" by (rule floor_mono)
  then show "trunc (fl (255 * v)) \<le> 255" using lo by (simp add: trunc_def)
  show "0 \<le> trunc (fl (255 * v))" using lo by (simp add: trunc_def)
qed

lemma process_cell_unit:
  assumes "v \<le> 1"
  shows "process_cell v = (if v > 0 then cast UInt8 (fl (255 * v)) else 0, 0, 0)"
    and "fits_int32 (fst (process_cell v))"
  using trunc_unit [of v] assms
  by (auto simp: process_cell_def cast_def fits_int32_def)

lemma process_row_unit:
  assumes "\<forall>v \<in> set row. v \<le> 1"
  shows "process_row row
     = Inr (map (\<lambda>v. (if v > 0 then cast UInt8 (fl (255 * v)) else 0, 0, 0)) row)"
proof -
  have "map process_cell row
      = map (\<lambda>v. (if v > 0 then cast UInt8 (fl (255 * v)) else 0, 0, 0)) row"
    using assms by (intro map_cong refl process_cell_unit) simp
  moreover have "\<forall>(c0, c1, c2) \<in> set (map process_cell row). fits_int32 c0"
    using assms process_cell_unit(2) by (auto simp: fits_int32_def process_cell_def)
  ultimately show ?thesis by (simp add: process_row_def)
qed

lemma parallel_rows_unit:
  "\<forall>row \<in> set f. \<forall>v \<in> set row. v \<le> 1 \<Longrightarrow> parallel_rows f = Inr (reference_image f)"
  by (induction f) (simp_all add: reference_image_def process_row_unit)

text \<open>
  Claim C8. For every field and every zero-initialised 8-bit image of the same shape, the
  \<^verbatim>\<open>process\<close> functions of \<^verbatim>\<open>where_method\<close>, \<^verbatim>\<open>clip_method\<close>, \<^verbatim>\<open>heaviside_method\<close>
  and \<^verbatim>\<open>piecewise_method\<close> write the same values into channel 0 of the image (255 times
  the field's value at strictly positive cells, stored as 8 bits, and 0 at all other cells)
  and return the same array.
\<close>

theorem slice_kernels_agree:
  assumes "fetch s sa = Some (Field f)"
    and "fetch s ea = Some (Image UInt8 (replicate r (replicate c (0, 0, 0))))"
    and "rect r c f"
  shows "where_method_process sa ea s = (Inr ea, put ea (Image UInt8 (reference_image f)) s)
       \<and> clip_method_process sa ea s = where_method_process sa ea s
       \<and> heaviside_method_process sa ea s = where_method_process sa ea s
       \<and> piecewise_method_process sa ea s = where_method_process sa ea s"
  by (simp add: where_zero [OF assms] slice_kernels_same)

text \<open>The hypotheses of claim C8 at a field of one row, with a positive and a negative cell.\<close>

theorem slice_kernels_agree_witness:
  "fetch small_state 0 = Some (Field [[double_0_6, -1/2]])
   \<and> fetch small_state 1 = Some (Image UInt8 (replicate 1 (replicate 2 (0, 0, 0))))
   \<and> rect 1 2 [[double_0_6, -1/2 :: real]]
   \<and> where_method_process 0 1 small_state
       = (Inr 1, put 1 (Image UInt8 [[(153, 0, 0), (0, 0, 0)]]) small_state)
   \<and> clip_method_process 0 1 small_state = where_method_process 0 1 small_state
   \<and> heaviside_method_process 0 1 small_state = where_method_process 0 1 small_state
   \<and> piecewise_method_process 0 1 small_state = where_method_process 0 1 small_state"
proof -
  have h: "fetch small_state 0 = Some (Field [[double_0_6, -1/2]])"
    "fetch small_state 1 = Some (Image UInt8 (replicate 1 (replicate 2 (0, 0, 0))))"
    "rect 1 2 [[double_0_6, -1/2 :: real]]"
    by (simp_all add: small_state_def fetch_def rect_def numeral_2_eq_2)
  have e: "reference_image [[double_0_6, -1/2]] = [[(153, 0, 0), (0, 0, 0)]]"
    by (simp add: reference_image_def cast_def trunc_def)
  show ?thesis using slice_kernels_agree [OF h] h e by simp
qed

text \<open>
  Claim C3 as stated fails: it puts no bound on the other cells of the field. With a cell
  holding 2 the nested-loop kernel stores the product 510 into 8 bits, which leaves 254,
  and \<^verbatim>\<open>parallel_method\<close>, which tests the sign as well, returns 510 in its 32-bit array.
\<close>

theorem scenario_4x4_counterexample:
  "wide_field ! 0 ! 0 = - 1 / 2 \<and> wide_field ! 1 ! 1 = double_0_6
   \<and> nested_loop_method_process 0 1 wide_state
       = (Inr 1, put 1 (Image UInt8
            [[(0, 0, 0), (0, 0, 0), (0, 0, 0), (0, 0, 0)],
             [(0, 0, 0), (153, 0, 0), (0, 0, 0), (0, 0, 0)],
             [(0, 0, 0), (0, 0, 0), (254, 0, 0), (0, 0, 0)],
             [(0, 0, 0), (0, 0, 0), (0, 0, 0), (0, 0, 0)]]) wide_state)
   \<and> parallel_method_process 0 1 wide_state
       = (Inr 2, wide_state\<lparr>heap := heap wide_state @ [Image Int32
            [[(0, 0, 0), (0, 0, 0), (0, 0, 0), (0, 0, 0)],
             [(0, 0, 0), (153, 0, 0), (0, 0, 0), (0, 0, 0)],
             [(0, 0, 0), (0, 0, 0), (510, 0, 0), (0, 0, 0)],
             [(0, 0, 0), (0, 0, 0), (0, 0, 0), (0, 0, 0)]]]\<rparr>)"
proof -
  have h: "fetch wide_state 0 = Some (Field wide_field)"
    "fetch wide_state 1 = Some (Image UInt8 (replicate 4 (replicate 4 (0, 0, 0))))"
    "rect 4 4 wide_field"
    by (simp_all add: wide_state_def fetch_def rect_def wide_field_def)
  have two: "fl (255 * 2) = 510"
    by (simp add: fl_eval)
  have r: "reference_image wide_field
      = [[(0, 0, 0), (0, 0, 0), (0, 0, 0), (0, 0, 0)],
         [(0, 0, 0), (153, 0, 0), (0, 0, 0), (0, 0, 0)],
         [(0, 0, 0), (0, 0, 0), (254, 0, 0), (0, 0, 0)],
         [(0, 0, 0), (0, 0, 0), (0, 0, 0), (0, 0, 0)]]"
    using two by (simp add: reference_image_def wide_field_def cast_def trunc_def)
  have p: "parallel_rows wide_field
      = Inr [[(0, 0, 0), (0, 0, 0), (0, 0, 0), (0, 0, 0)],
             [(0, 0, 0), (153, 0, 0), (0, 0, 0), (0, 0, 0)],
             [(0, 0, 0), (0, 0, 0), (510, 0, 0), (0, 0, 0)],
             [(0, 0, 0), (0, 0, 0), (0, 0, 0), (0, 0, 0)]]"
    using two by (simp add: wide_field_def process_row_def process_cell_def trunc_def fits_int32_def)
  have "parallel_method_process 0 1 wide_state
       = (Inr 2, wide_state\<lparr>heap := heap wide_state @ [Image Int32
            [[(0, 0, 0), (0, 0, 0), (0, 0, 0), (0, 0, 0)],
             [(0, 0, 0), (153, 0, 0), (0, 0, 0), (0, 0, 0)],
             [(0, 0, 0), (0, 0, 0), (510, 0, 0), (0, 0, 0)],
             [(0, 0, 0), (0, 0, 0), (0, 0, 0), (0, 0, 0)]]]\<rparr>)"
    using h(1) by (simp add: parallel_method_process_def field_of_def p alloc_def wide_state_def)
  moreover have "wide_field ! 0 ! 0 = - 1 / 2" "wide_field ! 1 ! 1 = double_0_6"
    by (simp_all add: wide_field_def)
  ultimately show ?thesis
    using nested_zero [OF h] by (simp add: r)
qed

text \<open>
  Claim C3, amended. For a 4 by 4 field whose cell (0,0) holds -0.5 and whose cell (1,1)
  holds the double 0.6, and the zeroed 8-bit image of that shape, the nested-loop kernel
  yields (0,0,0) at cell (0,0) and (153,0,0) at cell (1,1): the product of that double
  with 255 is rounded to 153. The kernels \<^verbatim>\<open>where\<close>, \<^verbatim>\<open>clip\<close>, \<^verbatim>\<open>heaviside\<close>,
  \<^verbatim>\<open>piecewise\<close> and \<^verbatim>\<open>dask_array\<close> write the same image, and when no cell of the field
  is above 1, \<^verbatim>\<open>parallel\<close> returns the same cells in a new 32-bit array.
\<close>

theorem scenario_4x4:
  assumes "fetch s sa = Some (Field f)"
    and "fetch s ea = Some (Image UInt8 (replicate 4 (replicate 4 (0, 0, 0))))"
    and "rect 4 4 f"
    and "f ! 0 ! 0 = - 1 / 2" and "f ! 1 ! 1 = double_0_6"
  shows "\<exists>out. nested_loop_method_process sa ea s = (Inr ea, put ea (Image UInt8 out) s)
       \<and> out ! 0 ! 0 = (0, 0, 0) \<and> out ! 1 ! 1 = (153, 0, 0)
       \<and> where_method_process sa ea s = (Inr ea, put ea (Image UInt8 out) s)
       \<and> clip_method_process sa ea s = (Inr ea, put ea (Image UInt8 out) s)
       \<and> heaviside_method_process sa ea s = (Inr ea, put ea (Image UInt8 out) s)
       \<and> piecewise_method_process sa ea s = (Inr ea, put ea (Image UInt8 out) s)
       \<and> dask_array_method_process sa ea s = (Inr ea, put ea (Image UInt8 out) s)
       \<and> ((\<forall>row \<in> set f. \<forall>v \<in> set row. v \<le> 1) \<longrightarrow>
            parallel_method_process sa ea s
              = (Inr (length (heap s)), s\<lparr>heap := heap s @ [Image Int32 out]\<rparr>))"
proof -
  have len: "length f = 4" "length (f ! 0) = 4" "length (f ! 1) = 4"
    using assms(3) by (simp_all add: rect_def)
  have c00: "reference_image f ! 0 ! 0 = (0, 0, 0)"
    using len assms(4) by (simp add: reference_image_def)
  have "reference_image f ! 1 ! 1
      = (if f ! 1 ! 1 > 0 then cast UInt8 (fl (255 * (f ! 1 ! 1))) else 0, 0, 0)"
    using len by (simp add: reference_image_def)
  also have "\<dots> = (153, 0, 0)"
    unfolding assms(5) by (simp add: cast_def trunc_def)
  finally have c11: "reference_image f ! 1 ! 1 = (153, 0, 0)" .
  have par: "parallel_method_process sa ea s
           = (Inr (length (heap s)), s\<lparr>heap := heap s @ [Image Int32 (reference_image f)]\<rparr>)"
    if "\<forall>row \<in> set f. \<forall>v \<in> set row. v \<le> 1"
    using assms(1) parallel_rows_unit [OF that]
    by (simp add: parallel_method_process_def field_of_def alloc_def)
  show ?thesis
    using nested_zero [OF assms(1-3)] where_zero [OF assms(1-3)] dask_zero [OF assms(1-3)]
      c00 c11 par
    by (intro exI [of _ "reference_image f"]) (simp add: slice_kernels_same)
qed

text \<open>The hypotheses of the amended claim C3 at a concrete field with cells from -1 to 1.\<close>

theorem scenario_4x4_witness:
  "fetch scenario_state 0 = Some (Field scenario_field)
   \<and> fetch scenario_state 1 = Some (Image UInt8 (replicate 4 (replicate 4 (0, 0, 0))))
   \<and> rect 4 4 scenario_field
   \<and> scenario_field ! 0 ! 0 = - 1 / 2 \<and> scenario_field ! 1 ! 1 = double_0_6
   \<and> (\<exists>out. nested_loop_method_process 0 1 scenario_state
               = (Inr 1, put 1 (Image UInt8 out) scenario_state)
       \<and> out ! 0 ! 0 = (0, 0, 0) \<and> out ! 1 ! 1 = (153, 0, 0)
       \<and> where_method_process 0 1 scenario_state = (Inr 1, put 1 (Image UInt8 out) scenario_state)
       \<and> clip_method_process 0 1 scenario_state = (Inr 1, put 1 (Image UInt8 out) scenario_state)
       \<and> heaviside_method_process 0 1 scenario_state
           = (Inr 1, put 1 (Image UInt8 out) scenario_state)
       \<and> piecewise_method_process 0 1 scenario_state
           = (Inr 1, put 1 (Image UInt8 out) scenario_state)
       \<and> dask_array_method_process 0 1 scenario_state
           = (Inr 1, put 1 (Image UInt8 out) scenario_state)
       \<and> parallel_method_process 0 1 scenario_state
           = (Inr (length (heap scenario_state)),
              scenario_state\<lparr>heap := heap scenario_state @ [Image Int32 out]\<rparr>))"
proof -
  have h: "fetch scenario_state 0 = Some (Field scenario_field)"
    "fetch scenario_state 1 = Some (Image UInt8 (replicate 4 (replicate 4 (0, 0, 0))))"
    "rect 4 4 scenario_field"
    "scenario_field ! 0 ! 0 = - 1 / 2" "scenario_field ! 1 ! 1 = double_0_6"
    by (simp_all add: scenario_state_def fetch_def rect_def scenario_field_def)
  have b: "\<forall>row \<in> set scenario_field. \<forall>v \<in> set row. v \<le> 1"
    by (simp add: scenario_field_def)
  show ?thesis using scenario_4x4 [OF h] h b by simp
qed

text \<open>
  Claim C2 asks of every registered kernel channel 0 to be 0 where the field is not
  positive, in agreement with the nested-loop kernel. \<^verbatim>\<open>list_comprehension_method\<close> has
  no test of the sign: at a cell holding -0.5 it returns -127 where the nested-loop kernel
  writes 0.
\<close>

theorem list_comprehension_negative_cell:
  "list_comprehension_method_process 0 1 negative_state
     = (Inr 2, negative_state\<lparr>heap := heap negative_state @ [Image IntDefault [[(- 127, 0, 0)]]]\<rparr>)
   \<and> nested_loop_method_process 0 1 negative_state
     = (Inr 1, put 1 (Image UInt8 [[(0, 0, 0)]]) negative_state)"
  by (simp add: list_comprehension_method_process_def nested_loop_method_process_def
      loop_process_def negative_state_def field_of_def image_of_def fetch_def alloc_def put_def
      array_of_ints_def fits_int64_def trunc_def nested_loop_upd_def fl_eval)

subsection \<open>The kernels that build a new array\<close>

lemma trunc_bound:
  assumes "\<bar>q\<bar> \<le> 255"
  shows "- 255 \<le> trunc q \<and> trunc q \<le> 255"
  using assms unfolding trunc_def by (auto split: if_splits) linarith+

lemma fetch_put_other: "a \<noteq> b \<Longrightarrow> fetch (put b v s) a = fetch s a"
  by (simp add: fetch_def put_def)

lemma heap_put_length [simp]: "length (heap (put a v s)) = length (heap s)"
  by (simp add: put_def)

lemma concat_nonempty:
  assumes "rect r c g" "0 < r" "0 < c"
  shows "concat g \<noteq> []"
proof -
  from assms obtain row rows where "g = row # rows" "length row = c"
    by (cases g) (auto simp: rect_def)
  with assms(3) show ?thesis by auto
qed

lemma list_comprehension_fresh:
  assumes "fetch s sa = Some (Field f)" and "rect r c f" and "0 < r" and "0 < c"
    and "\<forall>row \<in> set f. \<forall>v \<in> set row. \<bar>v\<bar> \<le> 1"
  shows "list_comprehension_method_process sa ea s
     = (Inr (length (heap s)),
        s\<lparr>heap := heap s
          @ [Image IntDefault (map (map (\<lambda>v. (trunc (fl (v * 255)), 0, 0))) f)]\<rparr>)"
proof -
  let ?g = "map (map (\<lambda>v. (trunc (fl (v * 255)), 0::int, 0::int))) f"
  have ne: "concat ?g \<noteq> []"
    using assms(2-4) by (intro concat_nonempty [of r c]) simp_all
  have fit: "\<forall>(c0, c1, c2) \<in> set (concat ?g). fits_int64 c0 \<and> fits_int64 c1 \<and> fits_int64 c2"
  proof -
    have "fits_int64 (trunc (fl (v * 255)))" if "\<bar>v\<bar> \<le> 1" for v :: real
    proof -
      have "\<bar>v * 255\<bar> \<le> 255" using that by (simp add: abs_mult)
      from fl_bounds [OF this] have "\<bar>fl (v * 255)\<bar> \<le> 255" by (simp add: abs_le_iff)
      from trunc_bound [OF this] show ?thesis by (simp add: fits_int64_def)
    qed
    then show ?thesis using assms(5) by (auto simp: fits_int64_def)
  qed
  have "array_of_ints ?g = Image IntDefault ?g"
    by (simp only: array_of_ints_def if_not_P [OF ne] if_P [OF fit])
  then show ?thesis using assms(1)
    by (simp add: list_comprehension_method_process_def field_of_def alloc_def)
qed

lemma parallel_rows_map:
  "\<forall>row \<in> set f. \<forall>v \<in> set row. v \<le> 1 \<Longrightarrow> parallel_rows f = Inr (map (map process_cell) f)"
proof (induction f)
  case Nil
  then show ?case by simp
next
  case (Cons row rows)
  have "\<forall>(c0, c1, c2) \<in> set (map process_cell row). fits_int32 c0"
    using Cons.prems process_cell_unit(2) by (auto simp: process_cell_def fits_int32_def)
  then have "process_row row = Inr (map process_cell row)"
    by (simp add: process_row_def)
  with Cons show ?case by simp
qed

lemma parallel_fresh:
  assumes "fetch s sa = Some (Field f)" and "\<forall>row \<in> set f. \<forall>v \<in> set row. \<bar>v\<bar> \<le> 1"
  shows "parallel_method_process sa ea s
     = (Inr (length (heap s)), s\<lparr>heap := heap s @ [Image Int32 (map (map process_cell) f)]\<rparr>)"
proof -
  have "\<forall>row \<in> set f. \<forall>v \<in> set row. v \<le> 1" using assms(2) by fastforce
  from parallel_rows_map [OF this] assms(1) show ?thesis
    by (simp add: parallel_method_process_def field_of_def alloc_def)
qed

lemma field_of_put_other: "sa \<noteq> ea \<Longrightarrow> field_of (put ea v s) sa = field_of s sa"
  by (simp add: field_of_def fetch_put_other)

lemma list_comprehension_frame:
  "\<exists>res extra. \<forall>ea t. field_of t sa = field_of s sa \<and> length (heap t) = length (heap s) \<longrightarrow>
     list_comprehension_method_process sa ea t = (res, t\<lparr>heap := heap t @ extra\<rparr>)"
proof (cases "field_of s sa")
  case (Inl e)
  then show ?thesis
    by (intro exI [of _ "Inl e"] exI [of _ "[]"])
       (simp add: list_comprehension_method_process_def)
next
  case (Inr f)
  then show ?thesis
    by (intro exI [of _ "Inr (length (heap s))"]
          exI [of _ "[array_of_ints (map (map (\<lambda>v. (trunc (fl (v * 255)), 0, 0))) f)]"])
       (simp add: list_comprehension_method_process_def alloc_def)
qed

lemma parallel_frame:
  "\<exists>res extra. \<forall>ea t. field_of t sa = field_of s sa \<and> length (heap t) = length (heap s) \<longrightarrow>
     parallel_method_process sa ea t = (res, t\<lparr>heap := heap t @ extra\<rparr>)"
proof (cases "field_of s sa")
  case (Inl e)
  then show ?thesis
    by (intro exI [of _ "Inl e"] exI [of _ "[]"]) (simp add: parallel_method_process_def)
next
  case f: (Inr f)
  show ?thesis
  proof (cases "parallel_rows f")
    case (Inl e)
    with f show ?thesis
      by (intro exI [of _ "Inl e"] exI [of _ "[]"]) (simp add: parallel_method_process_def)
  next
    case (Inr rows)
    with f show ?thesis
      by (intro exI [of _ "Inr (length (heap s))"] exI [of _ "[Image Int32 rows]"])
         (simp add: parallel_method_process_def alloc_def)
  qed
qed

lemma frame_buffer:
  assumes "\<forall>ea t. field_of t sa = field_of s sa \<and> length (heap t) = length (heap s) \<longrightarrow>
     k sa ea t = (res, t\<lparr>heap := heap t @ extra\<rparr>)"
  shows "k sa ea s = (res, s\<lparr>heap := heap s @ extra\<rparr>)
       \<and> k sa ea' s = (res, s\<lparr>heap := heap s @ extra\<rparr>)
       \<and> (sa \<noteq> ea \<longrightarrow> k sa ea (put ea v s)
              = (res, (put ea v s)\<lparr>heap := heap (put ea v s) @ extra\<rparr>))"
  using assms by (simp add: field_of_put_other)

text \<open>
  Claim C9 as stated fails at two inputs. On a field without rows
  \<^verbatim>\<open>list_comprehension_method\<close> returns an array of floats, the type numpy gives an empty
  list. On a cell holding ten million, whose product with 255 is beyond 32 bits,
  \<^verbatim>\<open>parallel_method\<close> raises OverflowError and returns no array.
\<close>

theorem fresh_kernels_counterexample:
  "list_comprehension_method_process 0 1 empty_state
     = (Inr 2, empty_state\<lparr>heap := heap empty_state @ [Image Float64 []]\<rparr>)
   \<and> parallel_method_process 0 1 huge_state = (Inl OverflowError, huge_state)"
proof -
  have "fl (255 * 10000000) = 2550000000"
    by (simp add: fl_eval)
  then have "parallel_method_process 0 1 huge_state = (Inl OverflowError, huge_state)"
    by (simp add: parallel_method_process_def field_of_def fetch_def huge_state_def
        process_row_def process_cell_def trunc_def fits_int32_def)
  moreover have "list_comprehension_method_process 0 1 empty_state
     = (Inr 2, empty_state\<lparr>heap := heap empty_state @ [Image Float64 []]\<rparr>)"
    by (simp add: list_comprehension_method_process_def field_of_def fetch_def empty_state_def
        array_of_ints_def alloc_def)
  ultimately show ?thesis by simp
qed

text \<open>
  Claim C9, amended. The \<^verbatim>\<open>process\<close> functions of \<^verbatim>\<open>list_comprehension_method\<close> and
  \<^verbatim>\<open>parallel_method\<close> neither read nor change their \<^verbatim>\<open>end_array\<close> argument. For every
  input, whether they return or raise, the store keeps every object it had, unchanged, and
  gains only what the call allocates; the result and the allocation are the same whichever
  object \<^verbatim>\<open>ea'\<close> is passed as buffer and whatever contents \<^verbatim>\<open>v\<close> the buffer has. On a
  field with at least one row and one column and cells of magnitude at most 1 they return
  a new array of the field's rows and columns, whose element type is numpy's default
  integer for the first and \<^verbatim>\<open>int32\<close> for the second, not \<^verbatim>\<open>uint8\<close>.
\<close>

theorem fresh_kernels_ignore_buffer:
  "(\<exists>res extra.
       list_comprehension_method_process sa ea s = (res, s\<lparr>heap := heap s @ extra\<rparr>)
     \<and> list_comprehension_method_process sa ea' s = (res, s\<lparr>heap := heap s @ extra\<rparr>)
     \<and> (sa \<noteq> ea \<longrightarrow> list_comprehension_method_process sa ea (put ea v s)
            = (res, (put ea v s)\<lparr>heap := heap (put ea v s) @ extra\<rparr>)))
   \<and> (\<exists>res extra.
       parallel_method_process sa ea s = (res, s\<lparr>heap := heap s @ extra\<rparr>)
     \<and> parallel_method_process sa ea' s = (res, s\<lparr>heap := heap s @ extra\<rparr>)
     \<and> (sa \<noteq> ea \<longrightarrow> parallel_method_process sa ea (put ea v s)
            = (res, (put ea v s)\<lparr>heap := heap (put ea v s) @ extra\<rparr>)))
   \<and> (fetch s sa = Some (Field f) \<and> rect r c f \<and> 0 < r \<and> 0 < c
        \<and> (\<forall>row \<in> set f. \<forall>v \<in> set row. \<bar>v\<bar> \<le> 1) \<longrightarrow>
       (\<exists>g h. rect r c g \<and> rect r c h
          \<and> list_comprehension_method_process sa ea s
              = (Inr (length (heap s)), s\<lparr>heap := heap s @ [Image IntDefault g]\<rparr>)
          \<and> parallel_method_process sa ea s
              = (Inr (length (heap s)), s\<lparr>heap := heap s @ [Image Int32 h]\<rparr>)))"
proof (intro conjI impI)
  from list_comprehension_frame [of sa s] obtain res extra where
    "\<forall>ea t. field_of t sa = field_of s sa \<and> length (heap t) = length (heap s) \<longrightarrow>
       list_comprehension_method_process sa ea t = (res, t\<lparr>heap := heap t @ extra\<rparr>)"
    by blast
  from frame_buffer [where k = list_comprehension_method_process and ea = ea and ea' = ea'
      and v = v, OF this]
  show "\<exists>res extra.
       list_comprehension_method_process sa ea s = (res, s\<lparr>heap := heap s @ extra\<rparr>)
     \<and> list_comprehension_method_process sa ea' s = (res, s\<lparr>heap := heap s @ extra\<rparr>)
     \<and> (sa \<noteq> ea \<longrightarrow> list_comprehension_method_process sa ea (put ea v s)
            = (res, (put ea v s)\<lparr>heap := heap (put ea v s) @ extra\<rparr>))"
    by blast
next
  from parallel_frame [of sa s] obtain res extra where
    "\<forall>ea t. field_of t sa = field_of s sa \<and> length (heap t) = length (heap s) \<longrightarrow>
       parallel_method_process sa ea t = (res, t\<lparr>heap := heap t @ extra\<rparr>)"
    by blast
  from frame_buffer [where k = parallel_method_process and ea = ea and ea' = ea'
      and v = v, OF this]
  show "\<exists>res extra.
       parallel_method_process sa ea s = (res, s\<lparr>heap := heap s @ extra\<rparr>)
     \<and> parallel_method_process sa ea' s = (res, s\<lparr>heap := heap s @ extra\<rparr>)
     \<and> (sa \<noteq> ea \<longrightarrow> parallel_method_process sa ea (put ea v s)
            = (res, (put ea v s)\<lparr>heap := heap (put ea v s) @ extra\<rparr>))"
    by blast
next
  assume a: "fetch s sa = Some (Field f) \<and> rect r c f \<and> 0 < r \<and> 0 < c
        \<and> (\<forall>row \<in> set f. \<forall>v \<in> set row. \<bar>v\<bar> \<le> 1)"
  let ?g = "map (map (\<lambda>v. (trunc (fl (v * 255)), 0::int, 0::int))) f"
  let ?h = "map (map process_cell) f"
  have "rect r c ?g" "rect r c ?h" using a by simp_all
  moreover have "list_comprehension_method_process sa ea s
      = (Inr (length (heap s)), s\<lparr>heap := heap s @ [Image IntDefault ?g]\<rparr>)"
    using a by (intro list_comprehension_fresh [of s sa f r c]) simp_all
  moreover have "parallel_method_process sa ea s
      = (Inr (length (heap s)), s\<lparr>heap := heap s @ [Image Int32 ?h]\<rparr>)"
    using a by (intro parallel_fresh) simp_all
  ultimately show "\<exists>g h. rect r c g \<and> rect r c h
          \<and> list_comprehension_method_process sa ea s
              = (Inr (length (heap s)), s\<lparr>heap := heap s @ [Image IntDefault g]\<rparr>)
          \<and> parallel_method_process sa ea s
              = (Inr (length (heap s)), s\<lparr>heap := heap s @ [Image Int32 h]\<rparr>)"
    by blast
qed

text \<open>
  The amended claim C9 at a field of one row, the buffer overwritten with sevens, and the
  field itself passed as buffer.
\<close>

theorem fresh_kernels_ignore_buffer_witness:
  "(\<exists>res extra.
       list_comprehension_method_process 0 1 small_state
         = (res, small_state\<lparr>heap := heap small_state @ extra\<rparr>)
     \<and> list_comprehension_method_process 0 0 small_state
         = (res, small_state\<lparr>heap := heap small_state @ extra\<rparr>)
     \<and> list_comprehension_method_process 0 1 (put 1 sevens small_state)
         = (res, (put 1 sevens small_state)\<lparr>heap := heap (put 1 sevens small_state) @ extra\<rparr>))
   \<and> (\<exists>res extra.
       parallel_method_process 0 1 small_state
         = (res, small_state\<lparr>heap := heap small_state @ extra\<rparr>)
     \<and> parallel_method_process 0 0 small_state
         = (res, small_state\<lparr>heap := heap small_state @ extra\<rparr>)
     \<and> parallel_method_process 0 1 (put 1 sevens small_state)
         = (res, (put 1 sevens small_state)\<lparr>heap := heap (put 1 sevens small_state) @ extra\<rparr>))
   \<and> (\<exists>g h. rect 1 2 g \<and> rect 1 2 h
        \<and> list_comprehension_method_process 0 1 small_state
            = (Inr 2, small_state\<lparr>heap := heap small_state @ [Image IntDefault g]\<rparr>)
        \<and> parallel_method_process 0 1 small_state
            = (Inr 2, small_state\<lparr>heap := heap small_state @ [Image Int32 h]\<rparr>))"
proof -
  have h: "fetch small_state 0 = Some (Field [[double_0_6, -1/2]])"
    "rect 1 2 [[double_0_6, -1/2 :: real]]"
    "\<forall>row \<in> set [[double_0_6, -1/2 :: real]]. \<forall>v \<in> set row. \<bar>v\<bar> \<le> 1"
    by (simp_all add: small_state_def fetch_def rect_def)
  have l: "length (heap small_state) = 2" by (simp add: small_state_def)
  show ?thesis
    using fresh_kernels_ignore_buffer
      [of 0 1 small_state 0 sevens "[[double_0_6, -1/2]]" 1 2] h
    unfolding l by simp
qed

section \<open>Properties of the harness\<close>

subsection \<open>Two small runs\<close>

lemmas harness_defs = benchmark_def warmup_def timeit_def call_stmt_def log_def reads_def
  print_lines_def copy_def alloc_def fetch_def put_def lookup_def zeros_def

lemmas kernel_defs = where_method_process_def slice_store_def field_of_def image_of_def
  assign_channel0_def nrows_def ncols_def broadcastable_def bidx_def cast_def trunc_def

lemma benchmark_tiny:
  "benchmark quick clk [FromImport ''numpy'' ''where''] where_method_process 0 1 tiny
   = (Inr (clk 3 - clk 2, (clk 3 - clk 2) * 1000),
      \<lparr>world = \<lparr>heap = [Field [[double_0_6]], Image UInt8 [[(153, 0, 0)]],
                        Field [[double_0_6]], Image UInt8 [[(0, 0, 0)]]], stdout = []\<rparr>,
       trace = [ExecSetup, ReadClock, Invoke, ReadClock, ExecSetup, ReadClock, Invoke, ReadClock]\<rparr>)"
  by (simp add: harness_defs quick_def tiny_def tiny_world_def kernel_defs
      numeral_3_eq_3 numeral_2_eq_2)

lemma benchmark_twice:
  "fst (benchmark twice ticks [FromImport ''numpy'' ''array'']
          list_comprehension_method_process 0 1 tiny) = Inr (1, 1000)"
  by (simp add: harness_defs twice_def tiny_def tiny_world_def ticks_def
      list_comprehension_method_process_def field_of_def array_of_ints_def fits_int64_def
      trunc_def numeral_2_eq_2 Let_def)

lemma discovery_unfinished:
  "create_methods_list unfinished_dir
     = Inr [(''where_method'', where_method), (''wip_method'', unfinished_method)]"
  by (simp add: create_methods_list_def unfinished_dir_def endswith_def import_module_def)

text \<open>
  Claim C4 as stated fails: with a module that lacks \<^verbatim>\<open>process\<close> in the directory,
  discovery succeeds and registers it, and the run ends in an AttributeError only after the
  module before it has been benchmarked (its two timer rounds are in the trace, its output
  in the image).
\<close>

theorem malformed_module_counterexample:
  "create_methods_list unfinished_dir
     = Inr [(''where_method'', where_method), (''wip_method'', unfinished_method)]
   \<and> main quick ticks flat_noise unfinished_dir blank
     = (Inl AttributeError,
        \<lparr>world = \<lparr>heap = [Field [[double_0_6]], Image UInt8 [[(153, 0, 0)]],
                          Field [[double_0_6]], Image UInt8 [[(0, 0, 0)]]],
                  stdout = [Separator, Started 1 1 1, Separator]\<rparr>,
         trace = [ExecSetup, ReadClock, Invoke, ReadClock, ExecSetup, ReadClock, Invoke, ReadClock]\<rparr>)"
  by (simp add: discovery_unfinished main_def create_base_arrays_def display_results_def
      where_method_def unfinished_method_def flat_noise_def blank_def
      harness_defs quick_def kernel_defs ticks_def numeral_3_eq_3 numeral_2_eq_2)

text \<open>
  Claim C6 as stated fails: \<^verbatim>\<open>display_results\<close> returns \<^verbatim>\<open>None\<close> and the text is on
  standard output, written by the function itself, which has also run the benchmark.
\<close>

theorem display_results_prints_counterexample:
  "display_results quick ticks 0 1 [(''where_method'', where_method)] tiny
     = (Inr (),
        \<lparr>world = \<lparr>heap = [Field [[double_0_6]], Image UInt8 [[(153, 0, 0)]],
                          Field [[double_0_6]], Image UInt8 [[(0, 0, 0)]]],
                  stdout = [Separator, Started 1 1 1, Separator,
                            ResultLine ''where_method'' 1000 1,
                            Separator, TotalRuntime 1, Separator]\<rparr>,
         trace = [ExecSetup, ReadClock, Invoke, ReadClock, ExecSetup, ReadClock, Invoke, ReadClock]\<rparr>)"
  by (simp add: display_results_def where_method_def tiny_def tiny_world_def
      harness_defs quick_def kernel_defs ticks_def sorted_results_def result_line_def
      numeral_3_eq_3 numeral_2_eq_2)

subsection \<open>Traces\<close>

lemma call_stmt_trace:
  "call_stmt stmt h = (r, h') \<Longrightarrow> trace h' = trace h @ [Invoke]"
  by (auto simp: call_stmt_def log_def split: prod.splits sum.splits)

lemma repeat_stmt_trace:
  "repeat_stmt n stmt h = (Inr u, h') \<Longrightarrow> trace h' = trace h @ replicate n Invoke"
proof (induction n arbitrary: h)
  case 0
  then show ?case by simp
next
  case (Suc n)
  then obtain h1 where c: "call_stmt stmt h = (Inr (), h1)"
    and r: "repeat_stmt n stmt h1 = (Inr u, h')"
    by (auto split: prod.splits sum.splits)
  from Suc.IH [OF r] call_stmt_trace [OF c] show ?case
    by (simp add: replicate_app_Cons_same)
qed

lemma reads_append: "trace h' = trace h @ es \<Longrightarrow>
    reads h' = reads h + length (filter (\<lambda>e. e = ReadClock) es)"
  by (simp add: reads_def)

lemma timeit_trace:
  assumes "timeit clk ns code stmt n h = (Inr t, h')"
  shows "trace h' = trace h @ round_trace n \<and> t = clk (Suc (reads h)) - clk (reads h)"
proof -
  from assms obtain locals w h3 u where
    r: "repeat_stmt n stmt (log ReadClock ((log ExecSetup h)\<lparr>world := w\<rparr>)) = (Inr u, h3)"
    and t: "t = clk (reads h3) - clk (reads ((log ExecSetup h)\<lparr>world := w\<rparr>))"
    and h': "h' = log ReadClock h3"
    by (auto simp: timeit_def Let_def split: prod.splits sum.splits)
  from repeat_stmt_trace [OF r]
  have tr: "trace h3 = trace h @ ExecSetup # ReadClock # replicate n Invoke"
    by (simp add: log_def)
  then have "reads h3 = Suc (reads h)"
    by (simp add: reads_def)
  moreover have "reads ((log ExecSetup h)\<lparr>world := w\<rparr>) = reads h"
    by (simp add: reads_def log_def)
  ultimately show ?thesis using t h' tr by (simp add: log_def round_trace_def)
qed

lemma reads_round: "trace h' = trace h @ round_trace n \<Longrightarrow> reads h' = reads h + 2"
  by (simp add: reads_def round_trace_def)

lemma warmup_loop_trace:
  "warmup_loop k (timeit clk ns code stmt n) h = (Inr ts, h') \<Longrightarrow>
   trace h' = trace h @ concat (replicate k (round_trace n)) \<and> reads h' = reads h + 2 * k"
proof (induction k arbitrary: h ts)
  case 0
  then show ?case by simp
next
  case (Suc k)
  then obtain t h1 ts' where a: "timeit clk ns code stmt n h = (Inr t, h1)"
    and b: "warmup_loop k (timeit clk ns code stmt n) h1 = (Inr ts', h')"
    by (auto split: prod.splits sum.splits)
  from timeit_trace [OF a] have t1: "trace h1 = trace h @ round_trace n" by simp
  from Suc.IH [OF b] t1 reads_round [OF t1] show ?case by simp
qed

lemma warmup_trace:
  assumes "warmup g (timeit clk ns code stmt) h = (Inr u, h')"
  shows "trace h' = trace h @ concat (replicate (NUM_WARMUP g) (round_trace (NUM_WARMUP g)))
       \<and> reads h' = reads h + 2 * NUM_WARMUP g"
proof (cases "NUM_WARMUP g > 0")
  case True
  with assms obtain ts where
    "warmup_loop (NUM_WARMUP g) (timeit clk ns code stmt (NUM_WARMUP g)) h = (Inr ts, h')"
    by (auto simp: warmup_def split: prod.splits sum.splits)
  from warmup_loop_trace [OF this] show ?thesis .
next
  case False
  with assms show ?thesis by (simp add: warmup_def)
qed

lemma count_round: "length (filter (\<lambda>e. e = Invoke) (round_trace n)) = n"
  by (simp add: round_trace_def)

lemma count_rounds:
  "length (filter (\<lambda>e. e = Invoke) (concat (replicate k (round_trace n)))) = k * n"
  by (induction k) (simp_all add: count_round)

lemma benchmark_trace:
  assumes "benchmark g clk code process sa ea h = (Inr (total_time, avg_time), h')"
  shows "trace h' = trace h @ concat (replicate (NUM_WARMUP g) (round_trace (NUM_WARMUP g)))
                      @ round_trace (NUM_TRIALS g)
       \<and> total_time = clk (reads h + 2 * NUM_WARMUP g + 1) - clk (reads h + 2 * NUM_WARMUP g)
       \<and> avg_time = total_time / real (NUM_TRIALS g) * 1000"
proof -
  from assms obtain sc w1 ec w2 u h3 h4 ns where
    w: "warmup g (timeit clk ns code (process sa ea)) (h\<lparr>world := w2\<rparr>) = (Inr u, h3)"
    and t: "timeit clk ns code (process sa ea) (NUM_TRIALS g) h3 = (Inr total_time, h4)"
    and h': "trace h' = trace h4"
    and avg_time: "avg_time = total_time / real (NUM_TRIALS g) * 1000"
    by (auto simp: benchmark_def Let_def print_lines_def split: prod.splits sum.splits if_splits)
  have h: "trace (h\<lparr>world := w2\<rparr>) = trace h" "reads (h\<lparr>world := w2\<rparr>) = reads h"
    by (simp_all add: reads_def)
  from warmup_trace [OF w] timeit_trace [OF t] h' avg_time show ?thesis
    unfolding h by simp
qed

lemma call_stmt_world: "call_stmt stmt h = (r, h') \<Longrightarrow> world h' = invoke stmt (world h)"
  by (auto simp: call_stmt_def invoke_def log_def split: prod.splits sum.splits)

lemma repeat_stmt_world:
  "repeat_stmt n stmt h = (Inr u, h') \<Longrightarrow> world h' = (invoke stmt ^^ n) (world h)"
proof (induction n arbitrary: h)
  case 0
  then show ?case by simp
next
  case (Suc n)
  then obtain h1 where c: "call_stmt stmt h = (Inr (), h1)"
    and r: "repeat_stmt n stmt h1 = (Inr u, h')"
    by (auto split: prod.splits sum.splits)
  from Suc.IH [OF r] call_stmt_world [OF c] show ?case
    by (simp add: funpow_swap1)
qed

lemma timeit_world:
  assumes "timeit clk ns code stmt n h = (Inr t, h')"
  shows "world h' = timer_round ns code stmt n (world h)"
proof -
  from assms obtain locals w h3 u where
    e: "exec_setup ns code [] (world h) = (Inr locals, w)"
    and r: "repeat_stmt n stmt (log ReadClock ((log ExecSetup h)\<lparr>world := w\<rparr>)) = (Inr u, h3)"
    and h': "h' = log ReadClock h3"
    by (auto simp: timeit_def Let_def split: prod.splits sum.splits)
  from repeat_stmt_world [OF r] have "world h3 = (invoke stmt ^^ n) w"
    by (simp add: log_def)
  with e h' show ?thesis by (simp add: timer_round_def log_def)
qed

lemma warmup_loop_world:
  "warmup_loop k (timeit clk ns code stmt n) h = (Inr ts, h') \<Longrightarrow>
   world h' = (timer_round ns code stmt n ^^ k) (world h)"
proof (induction k arbitrary: h ts)
  case 0
  then show ?case by simp
next
  case (Suc k)
  then obtain t h1 ts' where a: "timeit clk ns code stmt n h = (Inr t, h1)"
    and b: "warmup_loop k (timeit clk ns code stmt n) h1 = (Inr ts', h')"
    by (auto split: prod.splits sum.splits)
  from Suc.IH [OF b] timeit_world [OF a] show ?case
    by (simp add: funpow_swap1)
qed

lemma warmup_world:
  assumes "warmup g (timeit clk ns code stmt) h = (Inr u, h')"
  shows "world h' = (timer_round ns code stmt (NUM_WARMUP g) ^^ NUM_WARMUP g) (world h)"
proof (cases "NUM_WARMUP g > 0")
  case True
  with assms obtain ts where
    "warmup_loop (NUM_WARMUP g) (timeit clk ns code stmt (NUM_WARMUP g)) h = (Inr ts, h')"
    by (auto simp: warmup_def split: prod.splits sum.splits)
  from warmup_loop_world [OF this] show ?thesis .
next
  case False
  with assms show ?thesis by (simp add: warmup_def)
qed

lemma benchmark_world:
  assumes "benchmark g clk code process sa ea h = (Inr (total_time, avg_time), h')"
  shows "world h' =
     (let w2 = snd (copy ea (snd (copy sa (world h))));
          ns = [(''start_array'', Ref (length (heap (world h)))),
                (''end_array'', Ref (Suc (length (heap (world h))))),
                (''GRID_ROW'', IntVal (int (fst (SIZE g)))),
                (''GRID_COL'', IntVal (int (snd (SIZE g))))];
          w4 = timer_round ns code (process sa ea) (NUM_TRIALS g)
                 ((timer_round ns code (process sa ea) (NUM_WARMUP g) ^^ NUM_WARMUP g) w2)
      in if DEBUG g then w4\<lparr>stdout := stdout w4 @ [ProfilerStats]\<rparr> else w4)"
proof -
  let ?ns = "[(''start_array'', Ref (length (heap (world h)))),
              (''end_array'', Ref (Suc (length (heap (world h))))),
              (''GRID_ROW'', IntVal (int (fst (SIZE g)))),
              (''GRID_COL'', IntVal (int (snd (SIZE g))))]"
  let ?w2 = "snd (copy ea (snd (copy sa (world h))))"
  from assms obtain u h3 h4 where
    w: "warmup g (timeit clk ?ns code (process sa ea)) (h\<lparr>world := ?w2\<rparr>) = (Inr u, h3)"
    and t: "timeit clk ?ns code (process sa ea) (NUM_TRIALS g) h3 = (Inr total_time, h4)"
    and h': "h' = (if DEBUG g then print_lines [ProfilerStats] h4 else h4)"
    by (auto simp: benchmark_def Let_def copy_def alloc_def
          split: prod.splits sum.splits if_splits option.splits)
  from warmup_world [OF w] timeit_world [OF t] h' show ?thesis
    by (simp add: Let_def print_lines_def)
qed

text \<open>
  Claim C7. When \<^verbatim>\<open>benchmark\<close> returns, what it did before the timed trials is
  \<^verbatim>\<open>NUM_WARMUP\<close> rounds of the timer, each executing the setup code, reading the clock,
  calling the kernel \<^verbatim>\<open>NUM_WARMUP\<close> times and reading the clock again: \<^verbatim>\<open>NUM_WARMUP\<close>
  squared calls, none when \<^verbatim>\<open>NUM_WARMUP\<close> is 0. The calls are calls of the kernel on the
  store: the store at the end is the store after the two copies, taken through
  \<^verbatim>\<open>NUM_WARMUP\<close> rounds of \<^verbatim>\<open>NUM_WARMUP\<close> applications of \<^verbatim>\<open>process\<close> and then
  through the round of \<^verbatim>\<open>NUM_TRIALS\<close> applications. The timings of the warm-up rounds
  are not part of the result: the total returned is the difference of the two clock
  readings around the \<^verbatim>\<open>NUM_TRIALS\<close> timed calls, and the average is that total per
  trial in milliseconds.
\<close>

theorem warmup_squared:
  assumes "benchmark g clk code process sa ea h = (Inr (total_time, avg_time), h')"
  shows "trace h' = trace h
           @ concat (replicate (NUM_WARMUP g)
               (ExecSetup # ReadClock # replicate (NUM_WARMUP g) Invoke @ [ReadClock]))
           @ (ExecSetup # ReadClock # replicate (NUM_TRIALS g) Invoke @ [ReadClock])
       \<and> length (filter (\<lambda>e. e = Invoke) (concat (replicate (NUM_WARMUP g)
               (ExecSetup # ReadClock # replicate (NUM_WARMUP g) Invoke @ [ReadClock]))))
           = NUM_WARMUP g * NUM_WARMUP g
       \<and> world h' =
           (let w2 = snd (copy ea (snd (copy sa (world h))));
                ns = [(''start_array'', Ref (length (heap (world h)))),
                      (''end_array'', Ref (Suc (length (heap (world h))))),
                      (''GRID_ROW'', IntVal (int (fst (SIZE g)))),
                      (''GRID_COL'', IntVal (int (snd (SIZE g))))];
                w4 = timer_round ns code (process sa ea) (NUM_TRIALS g)
                       ((timer_round ns code (process sa ea) (NUM_WARMUP g) ^^ NUM_WARMUP g) w2)
            in if DEBUG g then w4\<lparr>stdout := stdout w4 @ [ProfilerStats]\<rparr> else w4)
       \<and> total_time = clk (reads h + 2 * NUM_WARMUP g + 1) - clk (reads h + 2 * NUM_WARMUP g)
       \<and> avg_time = total_time / real (NUM_TRIALS g) * 1000"
  using benchmark_trace [OF assms] count_rounds [of "NUM_WARMUP g" "NUM_WARMUP g"]
    benchmark_world [OF assms]
  by (simp add: round_trace_def)

text \<open>
  Claim C7 at two warm-up rounds and one trial of \<^verbatim>\<open>list_comprehension_method\<close>, the clock
  advancing by 1 at each reading. Every call of that kernel allocates its result, so the
  calls can be counted in the store: after the field, the image and their two copies it
  holds five new arrays, four from the warm-up and one from the trial.
\<close>

theorem warmup_squared_witness:
  "\<exists>h'. benchmark twice ticks [FromImport ''numpy'' ''array'']
            list_comprehension_method_process 0 1 tiny = (Inr (1, 1000), h')
      \<and> trace h' = [ExecSetup, ReadClock, Invoke, Invoke, ReadClock,
                     ExecSetup, ReadClock, Invoke, Invoke, ReadClock,
                     ExecSetup, ReadClock, Invoke, ReadClock]
      \<and> heap (world h') = [Field [[double_0_6]], Image UInt8 [[(0, 0, 0)]],
                            Field [[double_0_6]], Image UInt8 [[(0, 0, 0)]],
                            Image IntDefault [[(153, 0, 0)]], Image IntDefault [[(153, 0, 0)]],
                            Image IntDefault [[(153, 0, 0)]], Image IntDefault [[(153, 0, 0)]],
                            Image IntDefault [[(153, 0, 0)]]]"
proof -
  let ?code = "[FromImport ''numpy'' ''array'']"
  let ?final = "snd (benchmark twice ticks ?code list_comprehension_method_process 0 1 tiny)"
  have run: "benchmark twice ticks ?code list_comprehension_method_process 0 1 tiny
      = (Inr (1, 1000), ?final)"
    using benchmark_twice by (simp add: prod_eq_iff)
  have k: "invoke (list_comprehension_method_process 0 ea) w
      = w\<lparr>heap := heap w @ [Image IntDefault [[(153, 0, 0)]]]\<rparr>"
    if "fetch w 0 = Some (Field [[double_0_6]])" for w ea
    using that
    by (simp add: invoke_def list_comprehension_method_process_def field_of_def alloc_def
        array_of_ints_def fits_int64_def trunc_def)
  have r: "timer_round ns ?code stmt n w = (invoke stmt ^^ n) w" for ns stmt n w
    by (simp add: timer_round_def)
  from warmup_squared [OF run]
  have t: "trace ?final = trace tiny
           @ concat (replicate (NUM_WARMUP twice)
               (ExecSetup # ReadClock # replicate (NUM_WARMUP twice) Invoke @ [ReadClock]))
           @ (ExecSetup # ReadClock # replicate (NUM_TRIALS twice) Invoke @ [ReadClock])"
    and w: "world ?final =
           (let w2 = snd (copy 1 (snd (copy 0 (world tiny))));
                ns = [(''start_array'', Ref (length (heap (world tiny)))),
                      (''end_array'', Ref (Suc (length (heap (world tiny))))),
                      (''GRID_ROW'', IntVal (int (fst (SIZE twice)))),
                      (''GRID_COL'', IntVal (int (snd (SIZE twice))))];
                w4 = timer_round ns ?code (list_comprehension_method_process 0 1) (NUM_TRIALS twice)
                       ((timer_round ns ?code (list_comprehension_method_process 0 1)
                           (NUM_WARMUP twice) ^^ NUM_WARMUP twice) w2)
            in if DEBUG twice then w4\<lparr>stdout := stdout w4 @ [ProfilerStats]\<rparr> else w4)"
    by blast+
  have "trace ?final = [ExecSetup, ReadClock, Invoke, Invoke, ReadClock,
                     ExecSetup, ReadClock, Invoke, Invoke, ReadClock,
                     ExecSetup, ReadClock, Invoke, ReadClock]"
    unfolding t by (simp add: twice_def tiny_def numeral_2_eq_2)
  moreover have "heap (world ?final) = [Field [[double_0_6]], Image UInt8 [[(0, 0, 0)]],
                            Field [[double_0_6]], Image UInt8 [[(0, 0, 0)]],
                            Image IntDefault [[(153, 0, 0)]], Image IntDefault [[(153, 0, 0)]],
                            Image IntDefault [[(153, 0, 0)]], Image IntDefault [[(153, 0, 0)]],
                            Image IntDefault [[(153, 0, 0)]]]"
    unfolding w
    by (simp add: r k twice_def tiny_def tiny_world_def copy_def alloc_def fetch_def
        numeral_2_eq_2 Let_def)
  ultimately show ?thesis using run by (intro exI [of _ ?final]) simp
qed

subsection \<open>display_results\<close>

lemma run_methods_results:
  "run_methods g clk sa ea methods results overall h = (Inr (results', overall'), h') \<Longrightarrow>
   map fst results' = map fst results @ map fst methods
   \<and> overall' = overall + sum_list (map (\<lambda>r. snd (snd r)) (drop (length results) results'))
   \<and> take (length results) results' = results"
proof (induction methods arbitrary: results overall h)
  case Nil
  then show ?case by simp
next
  case (Cons p methods)
  obtain method_name m where p: "p = (method_name, m)" by (cases p)
  from Cons.prems p obtain code process total_time avg_time h1 where
    r: "run_methods g clk sa ea methods (results @ [(method_name, avg_time, total_time)])
          (overall + total_time) h1 = (Inr (results', overall'), h')"
    by (auto split: option.splits prod.splits sum.splits)
  from Cons.IH [OF r] have
    a: "map fst results' = map fst (results @ [(method_name, avg_time, total_time)]) @ map fst methods"
    and b: "overall' = overall + total_time
        + sum_list (map (\<lambda>r. snd (snd r)) (drop (Suc (length results)) results'))"
    and c: "take (Suc (length results)) results' = results @ [(method_name, avg_time, total_time)]"
    by simp_all
  from a have len: "length results < length results'"
    by (metis length_map length_append length_Cons less_add_Suc1 add_Suc_right add.right_neutral
        length_map less_Suc_eq trans_less_add1)
  from c len have nth: "results' ! length results = (method_name, avg_time, total_time)"
    by (metis lessI nth_append_length nth_take)
  from c have t: "take (length results) results' = results"
    by (metis append_eq_conv_conj butlast_snoc butlast_take diff_Suc_1 len Suc_leI)
  have "drop (length results) results'
      = (method_name, avg_time, total_time) # drop (Suc (length results)) results'"
    using len nth by (metis Cons_nth_drop_Suc)
  with a b t p show ?case by simp
qed

lemma display_results_output:
  assumes "display_results g clk sa ea methods h = (Inr u, h')"
  shows "\<exists>results overall h2.
      run_methods g clk sa ea methods [] 0
        (print_lines [Separator, Started (fst (SIZE g)) (snd (SIZE g)) (NUM_TRIALS g), Separator] h)
        = (Inr (results, overall), h2)
    \<and> stdout (world h') = stdout (world h2) @ map result_line (sorted_results results)
                            @ [Separator, TotalRuntime overall, Separator]
    \<and> heap (world h') = heap (world h2) \<and> trace h' = trace h2"
  using assms
  by (auto simp: display_results_def Let_def print_lines_def split: prod.splits sum.splits)

lemma sorted_results_props:
  "(\<forall>i. Suc i < length rs \<longrightarrow>
        fst (snd (sorted_results rs ! i)) \<le> fst (snd (sorted_results rs ! Suc i)))
   \<and> (\<forall>k. filter (\<lambda>r. fst (snd r) = k) (sorted_results rs) = filter (\<lambda>r. fst (snd r) = k) rs)
   \<and> (\<forall>rs'. mset rs' = mset rs \<longrightarrow>
        map (\<lambda>r. fst (snd r)) (sorted_results rs') = map (\<lambda>r. fst (snd r)) (sorted_results rs))"
proof (intro conjI allI impI)
  fix i assume i: "Suc i < length rs"
  have "sorted (map (\<lambda>r. fst (snd r)) (sorted_results rs))"
    by (simp add: sorted_results_def)
  then have "map (\<lambda>r. fst (snd r)) (sorted_results rs) ! i
      \<le> map (\<lambda>r. fst (snd r)) (sorted_results rs) ! Suc i"
    using i by (intro sorted_nth_mono) (simp_all add: sorted_results_def)
  then show "fst (snd (sorted_results rs ! i)) \<le> fst (snd (sorted_results rs ! Suc i))"
    using i by (simp add: sorted_results_def)
next
  fix k show "filter (\<lambda>r. fst (snd r) = k) (sorted_results rs) = filter (\<lambda>r. fst (snd r) = k) rs"
    by (simp add: sorted_results_def sort_key_stable)
next
  fix rs' :: "result list" assume m: "mset rs' = mset rs"
  have "mset (map (\<lambda>r. fst (snd r)) (sorted_results rs'))
      = mset (map (\<lambda>r. fst (snd r)) (sorted_results rs))"
    using m by (simp add: sorted_results_def)
  moreover have "sorted (map (\<lambda>r. fst (snd r)) (sorted_results rs'))"
    "sorted (map (\<lambda>r. fst (snd r)) (sorted_results rs))"
    by (simp_all add: sorted_results_def)
  ultimately show "map (\<lambda>r. fst (snd r)) (sorted_results rs')
      = map (\<lambda>r. fst (snd r)) (sorted_results rs)"
    by (metis properties_for_sort)
qed

lemma display_two:
  "display_results quick uneven 0 1
     [(''where_method'', where_method), (''clip_method'', clip_method)] tiny
   = (Inr (),
      \<lparr>world = \<lparr>heap = [Field [[double_0_6]], Image UInt8 [[(153, 0, 0)]],
                        Field [[double_0_6]], Image UInt8 [[(0, 0, 0)]],
                        Field [[double_0_6]], Image UInt8 [[(153, 0, 0)]]],
                stdout = [Separator, Started 1 1 1, Separator,
                          ResultLine ''clip_method'' 1000 1, ResultLine ''where_method'' 5000 5,
                          Separator, TotalRuntime 6, Separator]\<rparr>,
       trace = [ExecSetup, ReadClock, Invoke, ReadClock, ExecSetup, ReadClock, Invoke, ReadClock,
                ExecSetup, ReadClock, Invoke, ReadClock, ExecSetup, ReadClock, Invoke, ReadClock]\<rparr>)"
  by (simp add: display_results_def where_method_def clip_method_def tiny_def tiny_world_def
      harness_defs quick_def kernel_defs uneven_def sorted_results_def result_line_def
      clip_method_process_def clip_def)

text \<open>
  Claim C5. When \<^verbatim>\<open>display_results\<close> returns, the result lines it has printed are the
  collected results in the order of \<^verbatim>\<open>sorted_results\<close>: every adjacent pair is in
  ascending order of the average time, results of equal average keep their relative order,
  and the sequence of averages is the same for every order in which the results were
  collected.
\<close>

theorem results_sorted_stable:
  assumes "display_results g clk sa ea methods h = (Inr u, h')"
  shows "\<exists>results overall h2.
      run_methods g clk sa ea methods [] 0
        (print_lines [Separator, Started (fst (SIZE g)) (snd (SIZE g)) (NUM_TRIALS g), Separator] h)
        = (Inr (results, overall), h2)
    \<and> stdout (world h') = stdout (world h2) @ map result_line (sorted_results results)
                            @ [Separator, TotalRuntime overall, Separator]
    \<and> (\<forall>i. Suc i < length results \<longrightarrow>
          fst (snd (sorted_results results ! i)) \<le> fst (snd (sorted_results results ! Suc i)))
    \<and> (\<forall>k. filter (\<lambda>r. fst (snd r) = k) (sorted_results results)
            = filter (\<lambda>r. fst (snd r) = k) results)
    \<and> (\<forall>rs'. mset rs' = mset results \<longrightarrow>
          map (\<lambda>r. fst (snd r)) (sorted_results rs')
            = map (\<lambda>r. fst (snd r)) (sorted_results results))"
proof -
  from display_results_output [OF assms] obtain results overall h2 where
    "run_methods g clk sa ea methods [] 0
        (print_lines [Separator, Started (fst (SIZE g)) (snd (SIZE g)) (NUM_TRIALS g), Separator] h)
        = (Inr (results, overall), h2)"
    "stdout (world h') = stdout (world h2) @ map result_line (sorted_results results)
                            @ [Separator, TotalRuntime overall, Separator]"
    by blast
  with sorted_results_props [of results] show ?thesis by blast
qed

text \<open>
  Claim C5 at a run of two kernels of which the second is the faster: its line comes first.
\<close>

theorem results_sorted_stable_witness:
  "\<exists>h'. display_results quick uneven 0 1
           [(''where_method'', where_method), (''clip_method'', clip_method)] tiny = (Inr (), h')
      \<and> stdout (world h') = [Separator, Started 1 1 1, Separator,
           ResultLine ''clip_method'' 1000 1, ResultLine ''where_method'' 5000 5,
           Separator, TotalRuntime 6, Separator]"
  using results_sorted_stable [OF display_two] display_two by simp

text \<open>
  Claim C6, amended. \<^verbatim>\<open>display_results\<close> takes the registry, benchmarks every module
  itself, and itself prints, after the header, one line per module (in the order of
  \<^verbatim>\<open>sorted_results\<close>) and the footer with the sum of the total times; it returns no text.
\<close>

theorem display_results_prints:
  assumes "display_results g clk sa ea methods h = (Inr u, h')"
  shows "\<exists>results overall h2.
      run_methods g clk sa ea methods [] 0
        (print_lines [Separator, Started (fst (SIZE g)) (snd (SIZE g)) (NUM_TRIALS g), Separator] h)
        = (Inr (results, overall), h2)
    \<and> map fst results = map fst methods
    \<and> overall = sum_list (map (\<lambda>r. snd (snd r)) results)
    \<and> stdout (world h') = stdout (world h2) @ map result_line (sorted_results results)
                            @ [Separator, TotalRuntime overall, Separator]"
proof -
  from display_results_output [OF assms] obtain results overall h2 where
    r: "run_methods g clk sa ea methods [] 0
        (print_lines [Separator, Started (fst (SIZE g)) (snd (SIZE g)) (NUM_TRIALS g), Separator] h)
        = (Inr (results, overall), h2)"
    and s: "stdout (world h') = stdout (world h2) @ map result_line (sorted_results results)
                            @ [Separator, TotalRuntime overall, Separator]"
    by blast
  from run_methods_results [OF r] have "map fst results = map fst methods"
    "overall = sum_list (map (\<lambda>r. snd (snd r)) results)"
    by simp_all
  with r s show ?thesis by blast
qed

text \<open>The amended claim C6 at a run of two kernels: standard output has grown.\<close>

theorem display_results_prints_witness:
  "\<exists>h'. display_results quick uneven 0 1
           [(''where_method'', where_method), (''clip_method'', clip_method)] tiny = (Inr (), h')
      \<and> stdout (world h') \<noteq> stdout (world tiny)"
  using display_results_prints [OF display_two] display_two by (simp add: tiny_def tiny_world_def)

subsection \<open>Modules without setup or process\<close>

lemma load_methods_error: "load_methods dir names acc = Inl e \<Longrightarrow> e = ImportError"
proof (induction names arbitrary: acc)
  case Nil
  then show ?case by simp
next
  case (Cons n names)
  then show ?case
    by (auto simp: import_module_def split: sum.splits option.splits)
qed

lemma create_methods_list_error: "create_methods_list dir = Inl e \<Longrightarrow> e = ImportError"
  unfolding create_methods_list_def Let_def by (rule load_methods_error)

lemma run_methods_append:
  "run_methods g clk sa ea pre results overall h = (Inr (results', overall'), h') \<Longrightarrow>
   run_methods g clk sa ea (pre @ rest) results overall h
     = run_methods g clk sa ea rest results' overall' h'"
proof (induction pre arbitrary: results overall h)
  case Nil
  then show ?case by simp
next
  case (Cons p pre)
  obtain method_name m where p: "p = (method_name, m)" by (cases p)
  from Cons.prems p obtain code process total_time avg_time h1 where
    s: "m_setup m = Some code" "m_process m = Some process"
    and b: "benchmark g clk code process sa ea h = (Inr (total_time, avg_time), h1)"
    and r: "run_methods g clk sa ea pre (results @ [(method_name, avg_time, total_time)])
          (overall + total_time) h1 = (Inr (results', overall'), h')"
    by (auto split: option.splits prod.splits sum.splits)
  from Cons.IH [OF r] s b p show ?case by simp
qed

lemma endswith_strip:
  assumes "endswith f ''.py''"
  shows "take (length f - 3) f @ ''.py'' = f"
proof -
  from assms have d: "drop (length f - 3) f = ''.py''"
    by (simp add: endswith_def numeral_3_eq_3)
  show ?thesis by (subst d [symmetric]) (rule append_take_drop_id)
qed

lemma dict_set_mem: "(k, v) \<in> set (dict_set k v ps)"
  by (induction ps) auto

lemma dict_set_keeps: "(n, m) \<in> set ps \<Longrightarrow> k \<noteq> n \<or> v = m \<Longrightarrow> (n, m) \<in> set (dict_set k v ps)"
  by (induction ps) auto

lemma load_methods_keeps:
  "load_methods dir names acc = Inr ms \<Longrightarrow> (n, m) \<in> set acc \<Longrightarrow>
   import_module dir n = Inr m \<Longrightarrow> (n, m) \<in> set ms"
proof (induction names arbitrary: acc)
  case Nil
  then show ?case by simp
next
  case (Cons k names)
  from Cons.prems(1) obtain v where v: "import_module dir k = Inr v"
    and l: "load_methods dir names (dict_set k v acc) = Inr ms"
    by (auto split: sum.splits)
  have "k \<noteq> n \<or> v = m" using v Cons.prems(3) by auto
  from Cons.IH [OF l dict_set_keeps [OF Cons.prems(2) this] Cons.prems(3)] show ?case .
qed

lemma load_methods_registers:
  "load_methods dir names acc = Inr ms \<Longrightarrow> n \<in> set names \<Longrightarrow>
   import_module dir n = Inr m \<Longrightarrow> (n, m) \<in> set ms"
proof (induction names arbitrary: acc)
  case Nil
  then show ?case by simp
next
  case (Cons k names)
  from Cons.prems(1) obtain v where v: "import_module dir k = Inr v"
    and l: "load_methods dir names (dict_set k v acc) = Inr ms"
    by (auto split: sum.splits)
  show ?case
  proof (cases "k = n")
    case True
    with v Cons.prems(3) have "v = m" by simp
    with True have "(n, m) \<in> set (dict_set k v acc)" by (simp add: dict_set_mem)
    from load_methods_keeps [OF l this Cons.prems(3)] show ?thesis .
  next
    case False
    with Cons.prems(2) have "n \<in> set names" by simp
    from Cons.IH [OF l this Cons.prems(3)] show ?thesis .
  qed
qed

lemma create_methods_list_registers:
  assumes "create_methods_list dir = Inr methods" and "map_of dir f = Some (Some m)"
    and "endswith f ''.py''" and "f \<noteq> ''__init__.py''"
  shows "(take (length f - 3) f, m) \<in> set methods"
proof -
  let ?names = "[take (length f - 3) f. f \<leftarrow> map fst dir, endswith f ''.py'' \<and> f \<noteq> ''__init__.py'']"
  have "f \<in> set (map fst dir)" using assms(2) by (auto dest: map_of_SomeD intro: rev_image_eqI)
  then have n: "take (length f - 3) f \<in> set ?names" using assms(3,4) by auto
  have i: "import_module dir (take (length f - 3) f) = Inr m"
    using assms(2) endswith_strip [OF assms(3)] by (simp add: import_module_def)
  from assms(1) have "load_methods dir ?names [] = Inr methods"
    by (simp add: create_methods_list_def)
  from load_methods_registers [OF this n i] show ?thesis .
qed

text \<open>
  Claim C4, amended. Discovery does not look for \<^verbatim>\<open>setup\<close> and \<^verbatim>\<open>process\<close>: it never
  fails with DiscoveryError, and when it succeeds a module \<^verbatim>\<open>m\<close> lacking one of them is in
  the registry under the name of its file. Such a module makes \<^verbatim>\<open>display_results\<close> fail
  with AttributeError when the loop reaches it: the modules before it have been benchmarked,
  and neither a result line nor the footer is printed.
\<close>

theorem malformed_module_fails_in_loop:
  assumes "run_methods g clk sa ea pre [] 0
        (print_lines [Separator, Started (fst (SIZE g)) (snd (SIZE g)) (NUM_TRIALS g), Separator] h)
        = (Inr (results, overall), h')"
    and "m_setup m = None \<or> m_process m = None"
  shows "create_methods_list dir \<noteq> Inl DiscoveryError
       \<and> (create_methods_list dir = Inr methods \<longrightarrow> map_of dir f = Some (Some m) \<longrightarrow>
            endswith f ''.py'' \<longrightarrow> f \<noteq> ''__init__.py'' \<longrightarrow>
            (take (length f - 3) f, m) \<in> set methods)
       \<and> display_results g clk sa ea (pre @ (name, m) # post) h = (Inl AttributeError, h')"
proof -
  have "run_methods g clk sa ea ((name, m) # post) results overall h' = (Inl AttributeError, h')"
    using assms(2) by (auto split: option.splits)
  with run_methods_append [OF assms(1), of "(name, m) # post"]
  have "display_results g clk sa ea (pre @ (name, m) # post) h = (Inl AttributeError, h')"
    by (simp add: display_results_def)
  moreover have "create_methods_list dir \<noteq> Inl DiscoveryError"
    using create_methods_list_error [of dir DiscoveryError] by auto
  ultimately show ?thesis
    using create_methods_list_registers [of dir methods f m] by blast
qed

lemma run_one:
  "run_methods quick ticks 0 1 [(''where_method'', where_method)] [] 0
     (print_lines [Separator, Started (fst (SIZE quick)) (snd (SIZE quick)) (NUM_TRIALS quick),
                   Separator] tiny)
   = (Inr ([(''where_method'', 1000, 1)], 1),
      \<lparr>world = \<lparr>heap = [Field [[double_0_6]], Image UInt8 [[(153, 0, 0)]],
                        Field [[double_0_6]], Image UInt8 [[(0, 0, 0)]]],
                stdout = [Separator, Started 1 1 1, Separator]\<rparr>,
       trace = [ExecSetup, ReadClock, Invoke, ReadClock, ExecSetup, ReadClock, Invoke, ReadClock]\<rparr>)"
  by (simp add: where_method_def tiny_def tiny_world_def harness_defs quick_def kernel_defs
      ticks_def)

text \<open>The amended claim C4 with one well-formed module before the malformed one.\<close>

theorem malformed_module_fails_in_loop_witness:
  "create_methods_list unfinished_dir \<noteq> Inl DiscoveryError
   \<and> (''wip_method'', unfinished_method)
       \<in> set [(''where_method'', where_method), (''wip_method'', unfinished_method)]
   \<and> display_results quick ticks 0 1
       ([(''where_method'', where_method)] @ (''wip_method'', unfinished_method) # []) tiny
     = (Inl AttributeError,
        \<lparr>world = \<lparr>heap = [Field [[double_0_6]], Image UInt8 [[(153, 0, 0)]],
                          Field [[double_0_6]], Image UInt8 [[(0, 0, 0)]]],
                  stdout = [Separator, Started 1 1 1, Separator]\<rparr>,
         trace = [ExecSetup, ReadClock, Invoke, ReadClock, ExecSetup, ReadClock, Invoke, ReadClock]\<rparr>)"
proof -
  have m: "m_setup unfinished_method = None \<or> m_process unfinished_method = None"
    by (simp add: unfinished_method_def)
  have d: "map_of unfinished_dir ''wip_method.py'' = Some (Some unfinished_method)"
    "endswith ''wip_method.py'' ''.py''" "''wip_method.py'' \<noteq> ''__init__.py''"
    "take (length ''wip_method.py'' - 3) ''wip_method.py'' = ''wip_method''"
    by (simp_all add: unfinished_dir_def endswith_def)
  from malformed_module_fails_in_loop [OF run_one m, of unfinished_dir
      "[(''where_method'', where_method), (''wip_method'', unfinished_method)]"
      "''wip_method.py''" "''wip_method''" "[]"]
    discovery_unfinished d
  show ?thesis by simp
qed

subsection \<open>The copies in the namespace\<close>

text \<open>
  Claim C1 promises that the timed calls work on the copies placed in the namespace. The
  lambda that is timed passes the parameters of \<^verbatim>\<open>benchmark\<close>, the module's own two
  arrays: after one benchmark the image at address 1 holds the kernel's output and the copy
  made for the namespace (address 3) is still zero; after two, the copy made for the second
  kernel (address 5) already holds what the first kernel wrote.
\<close>

theorem benchmark_passes_originals:
  "heap (world (snd (benchmark quick clk [FromImport ''numpy'' ''where''] where_method_process 0 1
       tiny)))
     = [Field [[double_0_6]], Image UInt8 [[(153, 0, 0)]],
        Field [[double_0_6]], Image UInt8 [[(0, 0, 0)]]]
   \<and> heap (world (snd (display_results quick uneven 0 1
       [(''where_method'', where_method), (''clip_method'', clip_method)] tiny)))
     = [Field [[double_0_6]], Image UInt8 [[(153, 0, 0)]],
        Field [[double_0_6]], Image UInt8 [[(0, 0, 0)]],
        Field [[double_0_6]], Image UInt8 [[(153, 0, 0)]]]"
  unfolding benchmark_tiny display_two by simp

end
